theory Spec2Isabelle
  imports Complex_Main "HOL-Library.Sublist" "HOL-Library.Multiset"
begin

section \<open>JavaScript strings\<close>

text \<open>
  A JavaScript string is a sequence of UTF-16 code units. It is modelled as a \<open>string\<close>:
  the character with code \<open>n\<close> stands for the code unit \<open>n\<close>, so the model covers the
  strings whose code units lie below U+0100 (ASCII and the Latin-1 supplement). The string
  operations of the runtime that \<open>Feedback_api.js\<close> calls are written out for this range
  after ECMAScript.
\<close>

text \<open>
  \<open>String.prototype.trim\<close> strips white space and line terminators. Below U+0100 these
  are TAB, LF, VT, FF, CR, SPACE and NO-BREAK SPACE.
\<close>

definition isWhiteSpace :: "char \<Rightarrow> bool" where
  "isWhiteSpace c =
     (c \<in> set [CHR 0x09, CHR 0x0A, CHR 0x0B, CHR 0x0C, CHR 0x0D, CHR 0x20, CHR 0xA0])"

definition trim :: "string \<Rightarrow> string" where
  "trim s = rev (dropWhile isWhiteSpace (rev (dropWhile isWhiteSpace s)))"

text \<open>
  \<open>String.prototype.toUpperCase\<close>. The letters a-z and U+00E0-U+00FE (without the
  division sign U+00F7) move down by 32; U+00DF (sharp s) becomes the two letters SS. The
  upper-case forms of U+00B5 and U+00FF lie above U+00FF; the model keeps these two
  characters, which changes no test made on the result: the parser only searches it for
  ASCII labels.
\<close>

definition toUpperChar :: "char \<Rightarrow> string" where
  "toUpperChar c =
     (let n = (of_char c :: nat) in
      if 97 \<le> n \<and> n \<le> 122 then [char_of (n - 32)]
      else if n = 223 then ''SS''
      else if 224 \<le> n \<and> n \<le> 254 \<and> n \<noteq> 247 then [char_of (n - 32)]
      else [c])"

definition toUpperCase :: "string \<Rightarrow> string" where
  "toUpperCase s = concat (map toUpperChar s)"

text \<open>\<open>String.prototype.includes\<close>: the pattern occurs as a contiguous substring.\<close>

fun str_includes :: "string \<Rightarrow> string \<Rightarrow> bool" where
  "str_includes [] pat = (pat = [])"
| "str_includes (c # cs) pat = (prefix pat (c # cs) \<or> str_includes cs pat)"

text \<open>
  \<open>String.prototype.split\<close> with the separator \<open>'\n'\<close>: the pieces between the line
  feeds, also the empty ones; the empty string gives one empty piece. The first argument
  is the piece read so far.
\<close>

fun split_newline_from :: "string \<Rightarrow> string \<Rightarrow> string list" where
  "split_newline_from piece [] = [piece]"
| "split_newline_from piece (c # cs) =
     (if c = CHR 0x0A then piece # split_newline_from [] cs
      else split_newline_from (piece @ [c]) cs)"

definition split_newline :: "string \<Rightarrow> string list" where
  "split_newline s = split_newline_from [] s"

text \<open>\<open>Array.prototype.join\<close> with the separator \<open>'\n'\<close>.\<close>

fun join_newline :: "string list \<Rightarrow> string" where
  "join_newline [] = []"
| "join_newline [l] = l"
| "join_newline (l # m # ls) = l @ CHR 0x0A # join_newline (m # ls)"

subsection \<open>The regular expressions of the parser\<close>

text \<open>
  All regular expressions of the source carry the flag \<open>i\<close> and not the flag \<open>u\<close>.
  Such a pattern compares characters after \<open>Canonicalize\<close>: the upper-case form of the
  character when that is one code unit, except that no character from U+0080 on is
  identified with an ASCII one. The patterns of the source are ASCII, so keeping U+00B5 and
  U+00FF as they are changes no match.
\<close>

definition canonicalize :: "char \<Rightarrow> char" where
  "canonicalize c =
     (case toUpperChar c of
        [u] \<Rightarrow> if 128 \<le> (of_char c :: nat) \<and> (of_char u :: nat) < 128 then c else u
      | _ \<Rightarrow> c)"

text \<open>A literal pattern matches at the start of the subject.\<close>

definition matches_here :: "string \<Rightarrow> string \<Rightarrow> bool" where
  "matches_here pat s =
     (length pat \<le> length s \<and>
      map canonicalize (take (length pat) s) = map canonicalize pat)"

text \<open>
  \<open>line.replace(/LABEL/i, '')\<close>: the leftmost match of the literal pattern is removed,
  a subject without a match is returned as it is.
\<close>

fun replace_first :: "string \<Rightarrow> string \<Rightarrow> string" where
  "replace_first pat [] = []"
| "replace_first pat (c # cs) =
     (if matches_here pat (c # cs) then drop (length pat) (c # cs)
      else c # replace_first pat cs)"

text \<open>
  The pattern \<open>/\d+\.|TOP|PRACTICAL|DOMAIN/i\<close> tried at the start of the subject; the
  result is the length of the match. The alternatives are tried from left to right. The
  digits are matched greedily; giving digits back cannot help, since the character after a
  shorter run of digits is a digit and not the full stop.
\<close>

definition isDigit :: "char \<Rightarrow> bool" where
  "isDigit c = (c \<in> set ''0123456789'')"

definition section_delimiter :: "string \<Rightarrow> nat option" where
  "section_delimiter s =
     (let ds = takeWhile isDigit s in
      if ds \<noteq> [] \<and> matches_here ''.'' (drop (length ds) s) then Some (length ds + 1)
      else if matches_here ''TOP'' s then Some 3
      else if matches_here ''PRACTICAL'' s then Some 9
      else if matches_here ''DOMAIN'' s then Some 6
      else None)"

text \<open>
  \<open>feedbackText.split(/\d+\.|TOP|PRACTICAL|DOMAIN/i)\<close>. The runtime walks through the
  text from left to right; where the pattern matches, the piece read so far is closed and
  the walk goes on behind the match; the piece open at the end of the text is closed
  there. The pattern matches no empty string, so the empty text gives one empty piece.
\<close>

fun split_sections_from :: "string \<Rightarrow> string \<Rightarrow> string list" where
  "split_sections_from piece [] = [piece]"
| "split_sections_from piece (c # cs) =
     (case section_delimiter (c # cs) of
        Some n \<Rightarrow> piece # split_sections_from [] (drop (n - 1) cs)
      | None \<Rightarrow> split_sections_from (piece @ [c]) cs)"

definition split_sections :: "string \<Rightarrow> string list" where
  "split_sections s = split_sections_from [] s"

section \<open>The response parser\<close>

record feedback =
  topStrengths :: string
  practicalExperience :: string
  domainKnowledge :: string

definition default_topStrengths :: string where
  "default_topStrengths = ''Strong technical skills identified from assessment.''"

definition default_practicalExperience :: string where
  "default_practicalExperience = ''Hands-on experience demonstrated through skill ratings.''"

definition default_domainKnowledge :: string where
  "default_domainKnowledge = ''Domain expertise with areas for continued development.''"

text \<open>\<open>a || b\<close> on strings: the empty string is the only falsy string.\<close>

definition or_else :: "string \<Rightarrow> string \<Rightarrow> string" where
  "or_else a b = (if a = [] then b else a)"

text \<open>The tests of the \<open>if\<close>/\<open>else if\<close> chain in the loop over the lines.\<close>

definition has_top_label :: "string \<Rightarrow> bool" where
  "has_top_label line =
     (str_includes (toUpperCase line) ''TOP_STRENGTHS:'' \<or>
      str_includes (toUpperCase line) ''TOP STRENGTHS:'')"

definition has_practical_label :: "string \<Rightarrow> bool" where
  "has_practical_label line =
     (str_includes (toUpperCase line) ''PRACTICAL_EXPERIENCE:'' \<or>
      str_includes (toUpperCase line) ''PRACTICAL EXPERIENCE:'')"

definition has_domain_label :: "string \<Rightarrow> bool" where
  "has_domain_label line =
     (str_includes (toUpperCase line) ''DOMAIN_KNOWLEDGE:'' \<or>
      str_includes (toUpperCase line) ''DOMAIN KNOWLEDGE:'')"

text \<open>The right-hand sides of the three assignments.\<close>

definition strip_top :: "string \<Rightarrow> string" where
  "strip_top line =
     trim (replace_first ''TOP STRENGTHS:'' (replace_first ''TOP_STRENGTHS:'' line))"

definition strip_practical :: "string \<Rightarrow> string" where
  "strip_practical line =
     trim (replace_first ''PRACTICAL EXPERIENCE:''
       (replace_first ''PRACTICAL_EXPERIENCE:'' line))"

definition strip_domain :: "string \<Rightarrow> string" where
  "strip_domain line =
     trim (replace_first ''DOMAIN KNOWLEDGE:'' (replace_first ''DOMAIN_KNOWLEDGE:'' line))"

text \<open>One round of the loop: the three variables before, the line, the variables after.\<close>

definition scan_line :: "feedback \<Rightarrow> string \<Rightarrow> feedback" where
  "scan_line st line =
     (if has_top_label line then st\<lparr>topStrengths := strip_top line\<rparr>
      else if has_practical_label line then st\<lparr>practicalExperience := strip_practical line\<rparr>
      else if has_domain_label line then st\<lparr>domainKnowledge := strip_domain line\<rparr>
      else st)"

definition scan_lines :: "string list \<Rightarrow> feedback" where
  "scan_lines ls =
     foldl scan_line \<lparr>topStrengths = [], practicalExperience = [], domainKnowledge = []\<rparr> ls"

definition nonblank_lines :: "string \<Rightarrow> string list" where
  "nonblank_lines feedbackText =
     filter (\<lambda>line. trim line \<noteq> []) (split_newline feedbackText)"

definition nonblank_sections :: "string \<Rightarrow> string list" where
  "nonblank_sections feedbackText =
     filter (\<lambda>section. trim section \<noteq> []) (split_sections feedbackText)"

text \<open>The block guarded by \<open>!topStrengths && !practicalExperience && !domainKnowledge\<close>.\<close>

definition fallback_sections :: "string \<Rightarrow> feedback \<Rightarrow> feedback" where
  "fallback_sections feedbackText st =
     (if topStrengths st = [] \<and> practicalExperience st = [] \<and> domainKnowledge st = [] then
        (let sections = nonblank_sections feedbackText in
         if 3 \<le> length sections then
           \<lparr>topStrengths = trim (sections ! 0),
            practicalExperience = trim (sections ! 1),
            domainKnowledge = trim (sections ! 2)\<rparr>
         else
           \<lparr>topStrengths = default_topStrengths,
            practicalExperience = default_practicalExperience,
            domainKnowledge = default_domainKnowledge\<rparr>)
      else st)"

definition parseFeedbackResponse :: "string \<Rightarrow> feedback" where
  "parseFeedbackResponse feedbackText =
     (let st = fallback_sections feedbackText (scan_lines (nonblank_lines feedbackText)) in
      \<lparr>topStrengths = or_else (topStrengths st) default_topStrengths,
       practicalExperience = or_else (practicalExperience st) default_practicalExperience,
       domainKnowledge = or_else (domainKnowledge st) default_domainKnowledge\<rparr>)"

section \<open>JavaScript values\<close>

text \<open>
  \<open>SkillsFeedback\<close> is called with whatever the request body holds, so its arguments are
  values of any type. A finite number is the rational it denotes; comparing two numbers
  compares these, and a comparison with \<open>NaN\<close> is false.
\<close>

datatype js_number = NaN | PosInfinity | NegInfinity | Finite rat

datatype js_value =
    JUndefined
  | JNull
  | JBoolean bool
  | JNumber js_number
  | JString string
  | JArray "js_value list"
  | JObject "(string \<times> js_value) list"

datatype js_error = TypeError | SyntaxError | NetworkError | ApiError

fun num_less :: "js_number \<Rightarrow> js_number \<Rightarrow> bool" where
  "num_less NaN b = False"
| "num_less a NaN = False"
| "num_less (Finite a) (Finite b) = (a < b)"
| "num_less a NegInfinity = False"
| "num_less NegInfinity b = True"
| "num_less PosInfinity b = False"
| "num_less a PosInfinity = True"

fun num_less_eq :: "js_number \<Rightarrow> js_number \<Rightarrow> bool" where
  "num_less_eq NaN b = False"
| "num_less_eq a NaN = False"
| "num_less_eq (Finite a) (Finite b) = (a \<le> b)"
| "num_less_eq NegInfinity b = True"
| "num_less_eq a PosInfinity = True"
| "num_less_eq a NegInfinity = False"
| "num_less_eq PosInfinity b = False"

text \<open>\<open>ToBoolean\<close>, as \<open>!v\<close> applies it.\<close>

fun truthy :: "js_value \<Rightarrow> bool" where
  "truthy JUndefined = False"
| "truthy JNull = False"
| "truthy (JBoolean b) = b"
| "truthy (JNumber n) = (n \<noteq> NaN \<and> n \<noteq> Finite 0)"
| "truthy (JString s) = (s \<noteq> [])"
| "truthy (JArray xs) = True"
| "truthy (JObject ps) = True"

fun typeof :: "js_value \<Rightarrow> string" where
  "typeof JUndefined = ''undefined''"
| "typeof JNull = ''object''"
| "typeof (JBoolean b) = ''boolean''"
| "typeof (JNumber n) = ''number''"
| "typeof (JString s) = ''string''"
| "typeof (JArray xs) = ''object''"
| "typeof (JObject ps) = ''object''"

fun isArray :: "js_value \<Rightarrow> bool" where
  "isArray (JArray xs) = True"
| "isArray v = False"

fun array_elements :: "js_value \<Rightarrow> js_value list" where
  "array_elements (JArray xs) = xs"
| "array_elements v = []"

fun string_value :: "js_value \<Rightarrow> string" where
  "string_value (JString s) = s"
| "string_value v = []"

fun number_value :: "js_value \<Rightarrow> js_number" where
  "number_value (JNumber n) = n"
| "number_value v = NaN"

text \<open>
  Member access \<open>v.key\<close> for the keys the source reads (\<open>name\<close>, \<open>rating\<close>,
  \<open>choices\<close>, \<open>message\<close>, \<open>content\<close>): none of them lives on a prototype, so only an
  object can have them. On \<open>undefined\<close> and \<open>null\<close> the access throws a TypeError.
\<close>

fun property :: "js_value \<Rightarrow> string \<Rightarrow> js_value" where
  "property (JObject ps) key = (case map_of ps key of Some v \<Rightarrow> v | None \<Rightarrow> JUndefined)"
| "property v key = JUndefined"

definition get_property :: "js_value \<Rightarrow> string \<Rightarrow> js_error + js_value" where
  "get_property v key =
     (if v = JUndefined \<or> v = JNull then Inl TypeError else Inr (property v key))"

text \<open>Indexed access \<open>v[0]\<close>.\<close>

fun get_first :: "js_value \<Rightarrow> js_error + js_value" where
  "get_first JUndefined = Inl TypeError"
| "get_first JNull = Inl TypeError"
| "get_first (JArray xs) = Inr (case xs of [] \<Rightarrow> JUndefined | x # rest \<Rightarrow> x)"
| "get_first (JString s) = Inr (case s of [] \<Rightarrow> JUndefined | c # rest \<Rightarrow> JString [c])"
| "get_first (JObject ps) = Inr (property (JObject ps) ''0'')"
| "get_first v = Inr JUndefined"

section \<open>The input validator\<close>

record validation =
  isValid :: bool
  message :: "string option"

text \<open>The loop over the skills: the first skill that fails a check ends it.\<close>

fun validate_skills :: "js_value list \<Rightarrow> js_error + validation" where
  "validate_skills [] = Inr \<lparr>isValid = True, message = None\<rparr>"
| "validate_skills (skill # rest) =
     (case get_property skill ''name'' of
        Inl e \<Rightarrow> Inl e
      | Inr skill_name \<Rightarrow>
          if \<not> truthy skill_name \<or> typeof skill_name \<noteq> ''string'' then
            Inr \<lparr>isValid = False, message = Some ''Each skill must have a valid name.''\<rparr>
          else
            (case get_property skill ''rating'' of
               Inl e \<Rightarrow> Inl e
             | Inr skill_rating \<Rightarrow>
                 if \<not> truthy skill_rating \<or> typeof skill_rating \<noteq> ''number'' \<or>
                    num_less (number_value skill_rating) (Finite 1) \<or>
                    num_less (Finite 5) (number_value skill_rating) then
                   Inr \<lparr>isValid = False,
                        message = Some ''Each skill must have a rating between 1 and 5.''\<rparr>
                 else validate_skills rest))"

definition validateInput :: "js_value \<Rightarrow> js_value \<Rightarrow> js_error + validation" where
  "validateInput skills overallComment =
     (if \<not> truthy skills \<or> \<not> isArray skills \<or> length (array_elements skills) = 0 then
        Inr \<lparr>isValid = False,
             message = Some ''Invalid input. Please provide an array of skills.''\<rparr>
      else if \<not> truthy overallComment \<or> typeof overallComment \<noteq> ''string'' \<or>
              trim (string_value overallComment) = [] then
        Inr \<lparr>isValid = False,
             message = Some ''Please provide an overall comment about your skills.''\<rparr>
      else validate_skills (array_elements skills))"

section \<open>The prompt builder\<close>

text \<open>
  Adding and dividing floating-point numbers and printing them (\<open>Number::toString\<close>,
  \<open>toFixed\<close>) are done by the runtime and are no part of the source. They are parameters
  of the model: every statement below holds for whatever these functions are.
\<close>

record js_runtime =
  number_add :: "js_number \<Rightarrow> js_number \<Rightarrow> js_number"
  number_divide :: "js_number \<Rightarrow> js_number \<Rightarrow> js_number"
  number_toString :: "js_number \<Rightarrow> string"
  number_toFixed :: "nat \<Rightarrow> js_number \<Rightarrow> string"

text \<open>A count or an index in a template literal: its decimal digits.\<close>

fun show_nat :: "nat \<Rightarrow> string" where
  "show_nat n =
     (if n < 10 then [char_of (48 + n)]
      else show_nat (n div 10) @ [char_of (48 + n mod 10)])"

declare show_nat.simps [simp del]

text \<open>
  The prompt is built after the validation has passed: every skill is an object whose
  \<open>name\<close> is a string and whose \<open>rating\<close> is a number.
\<close>

definition skill_line :: "js_runtime \<Rightarrow> nat \<times> js_value \<Rightarrow> string" where
  "skill_line rt = (\<lambda>(index, skill).
     show_nat (index + 1) @ ''. '' @ string_value (property skill ''name'') @
     '' - Rating: '' @ number_toString rt (number_value (property skill ''rating'')) @ ''/5'')"

definition skillsText :: "js_runtime \<Rightarrow> js_value list \<Rightarrow> string" where
  "skillsText rt skills = join_newline (map (skill_line rt) (enumerate 0 skills))"

definition averageRating :: "js_runtime \<Rightarrow> js_value list \<Rightarrow> string" where
  "averageRating rt skills =
     number_toFixed rt 1
       (number_divide rt
          (foldl (\<lambda>sum skill. number_add rt sum (number_value (property skill ''rating'')))
             (Finite 0) skills)
          (Finite (of_nat (length skills))))"

definition highRatedSkills :: "js_value list \<Rightarrow> nat" where
  "highRatedSkills skills =
     length (filter (\<lambda>skill. num_less_eq (Finite 4) (number_value (property skill ''rating'')))
       skills)"

definition lowRatedSkills :: "js_value list \<Rightarrow> nat" where
  "lowRatedSkills skills =
     length (filter (\<lambda>skill. num_less_eq (number_value (property skill ''rating'')) (Finite 2))
       skills)"

definition prompt_template ::
    "string \<Rightarrow> string \<Rightarrow> string \<Rightarrow> string \<Rightarrow> string \<Rightarrow> string \<Rightarrow> string" where
  "prompt_template skills_text overallComment total_text average_text high_text low_text =
     join_newline
      [[],
       ''    You are an expert career coach and skills development specialist. Analyze the following skills self-assessment and provide feedback in EXACTLY these 3 categories only.'',
       [],
       ''    SKILLS ASSESSMENT:'',
       ''    '' @ skills_text,
       [],
       ''    OVERALL SELF-ASSESSMENT COMMENT:'',
       ''    '' @ [CHR 0x22] @ overallComment @ [CHR 0x22],
       [],
       ''    STATISTICAL OVERVIEW:'',
       ''    - Total Skills Assessed: '' @ total_text,
       ''    - Average Rating: '' @ average_text @ ''/5'',
       ''    - High Performing Skills (4-5): '' @ high_text,
       ''    - Skills Needing Development (1-2): '' @ low_text,
       [],
       ''    REQUIREMENTS:'',
       ''    Provide feedback in EXACTLY these 3 categories only:'',
       [],
       ''    1. Top Strengths: Identify the candidate'' @ [CHR 0x27] @ ''s highest-rated skills and strongest capabilities based on ratings of 4-5. Focus on what they excel at.'',
       [],
       ''    2. Practical Experience: Assess their hands-on experience and real-world application of their skills based on their ratings and overall comment. Focus on verified experience and practical application.'',
       [],
       ''    3. Domain Knowledge: Evaluate their theoretical understanding, industry knowledge, and areas for development based on lower-rated skills and overall assessment. Include both existing domain expertise and development areas.'',
       [],
       ''    Return ONLY these 3 sections with concise, professional feedback for each. Keep each section to 3-4 sentences maximum.DON'' @ [CHR 0x27] @ ''T INCLUDE THE NUMBERS IN BETWEEN THE RESPONSE LIKE 5/5 RATED. Do not include any formatting like ** or headers, just the plain text for each section. '']"

definition build_prompt :: "js_runtime \<Rightarrow> js_value list \<Rightarrow> string \<Rightarrow> string" where
  "build_prompt rt skills overallComment =
     prompt_template (skillsText rt skills) overallComment (show_nat (length skills))
       (averageRating rt skills) (show_nat (highRatedSkills skills))
       (show_nat (lowRatedSkills skills))"

section \<open>The completion call and the result\<close>

text \<open>
  What \<open>fetch\<close> gave: the flag \<open>ok\<close> of the response and what \<open>response.json()\<close> gives,
  the parsed body or the error it throws.
\<close>

datatype http_response = HttpResponse (ok: bool) (json: "js_error + js_value")

text \<open>
  The completion service is a parameter: from the prompt in the request to the response,
  or to the error that \<open>fetch\<close> throws. The URL, the headers, the model name, the system
  message, the temperature and the token limit of the request are constants of the source.
\<close>

type_synonym completion_service = "string \<Rightarrow> js_error + http_response"

text \<open>\<open>data.choices[0].message.content\<close>\<close>

definition message_content :: "js_value \<Rightarrow> js_error + js_value" where
  "message_content data =
     (case get_property data ''choices'' of
        Inl e \<Rightarrow> Inl e
      | Inr choices \<Rightarrow>
          (case get_first choices of
             Inl e \<Rightarrow> Inl e
           | Inr choice \<Rightarrow>
               (case get_property choice ''message'' of
                  Inl e \<Rightarrow> Inl e
                | Inr msg \<Rightarrow> get_property msg ''content'')))"

definition success_result :: "feedback \<Rightarrow> js_value" where
  "success_result parsedFeedback =
     JObject
      [(''success'', JBoolean True),
       (''feedback'', JObject
          [(''Top_strength'', JString (topStrengths parsedFeedback)),
           (''practical_Experience'', JString (practicalExperience parsedFeedback)),
           (''DOmain_Knowledge'', JString (domainKnowledge parsedFeedback))])]"

definition failure_result :: js_value where
  "failure_result =
     JObject
      [(''success'', JBoolean False),
       (''error'', JString ''Failed to generate feedback''),
       (''feedback'', JObject
          [(''Top_strength'', JString ''Unable to generate feedback at this time.''),
           (''practical_Experience'', JString ''Unable to generate feedback at this time.''),
           (''DOmain_Knowledge'', JString ''Unable to generate feedback at this time.'')])]"

text \<open>
  The body of the \<open>try\<close> block: \<open>Inl\<close> is an exception thrown inside it. A response that
  is not \<open>ok\<close> ends in a \<open>throw\<close>, whether its body can be read or not. Calling \<open>split\<close>
  on a text that is no string throws a TypeError.
\<close>

definition try_block :: "completion_service \<Rightarrow> string \<Rightarrow> js_error + js_value" where
  "try_block fetch prompt =
     (case fetch prompt of
        Inl e \<Rightarrow> Inl e
      | Inr response \<Rightarrow>
          if \<not> ok response then
            (case json response of Inl e \<Rightarrow> Inl e | Inr errorData \<Rightarrow> Inl ApiError)
          else
            (case json response of
               Inl e \<Rightarrow> Inl e
             | Inr data \<Rightarrow>
                 (case message_content data of
                    Inl e \<Rightarrow> Inl e
                  | Inr feedbackText \<Rightarrow>
                      (case feedbackText of
                         JString str \<Rightarrow> Inr (success_result (parseFeedbackResponse str))
                       | _ \<Rightarrow> Inl TypeError))))"

definition message_value :: "validation \<Rightarrow> js_value" where
  "message_value v = (case message v of Some m \<Rightarrow> JString m | None \<Rightarrow> JUndefined)"

text \<open>
  \<open>SkillsFeedback\<close>: the value it returns or the exception it throws, and the prompts of
  the completion calls it has made, in order. The \<open>catch\<close> block turns every exception of
  the \<open>try\<close> block into the failure result; writing to the console is left out.
\<close>

definition SkillsFeedback ::
    "js_runtime \<Rightarrow> completion_service \<Rightarrow> js_value \<Rightarrow> js_value \<Rightarrow>
     (js_error + js_value) \<times> string list" where
  "SkillsFeedback rt fetch skills overallComment =
     (case validateInput skills overallComment of
        Inl e \<Rightarrow> (Inl e, [])
      | Inr validation \<Rightarrow>
          if \<not> isValid validation then
            (Inr (JObject [(''success'', JBoolean False), (''error'', message_value validation)]),
             [])
          else
            (let prompt = build_prompt rt (array_elements skills) (string_value overallComment)
             in case try_block fetch prompt of
                  Inr result \<Rightarrow> (Inr result, [prompt])
                | Inl error \<Rightarrow> (Inr failure_result, [prompt])))"

section \<open>The request of the specification\<close>

text \<open>
  A skill of the specification: a name and a rating. A request is valid when it has at
  least one skill, every name is non-empty, every rating lies in the closed range from 1
  to 5, and the comment is non-empty after trimming.
\<close>

record skill =
  name :: string
  rating :: rat

definition valid_skill :: "skill \<Rightarrow> bool" where
  "valid_skill s = (name s \<noteq> [] \<and> 1 \<le> rating s \<and> rating s \<le> 5)"

definition valid_request :: "skill list \<Rightarrow> string \<Rightarrow> bool" where
  "valid_request skills overallComment =
     (skills \<noteq> [] \<and> trim overallComment \<noteq> [] \<and> list_all valid_skill skills)"

text \<open>The skill as the request body carries it.\<close>

definition skill_value :: "skill \<Rightarrow> js_value" where
  "skill_value s =
     JObject [(''name'', JString (name s)), (''rating'', JNumber (Finite (rating s)))]"

section \<open>Notions for stating the properties\<close>

text \<open>The names of the fields of an object, in order.\<close>

definition property_names :: "js_value \<Rightarrow> string list" where
  "property_names v = (case v of JObject ps \<Rightarrow> map fst ps | _ \<Rightarrow> [])"

text \<open>The completion call has failed: \<open>fetch\<close> threw, or the response is not \<open>ok\<close>.\<close>

definition upstream_failed :: "js_error + http_response \<Rightarrow> bool" where
  "upstream_failed r = (case r of Inl e \<Rightarrow> True | Inr response \<Rightarrow> \<not> ok response)"

text \<open>The three categories, and the variable, the assignment and the canned sentence of each.\<close>

datatype category = Strengths | Experience | Knowledge

fun field :: "category \<Rightarrow> feedback \<Rightarrow> string" where
  "field Strengths st = topStrengths st"
| "field Experience st = practicalExperience st"
| "field Knowledge st = domainKnowledge st"

fun strip_label :: "category \<Rightarrow> string \<Rightarrow> string" where
  "strip_label Strengths line = strip_top line"
| "strip_label Experience line = strip_practical line"
| "strip_label Knowledge line = strip_domain line"

fun default_of :: "category \<Rightarrow> string" where
  "default_of Strengths = default_topStrengths"
| "default_of Experience = default_practicalExperience"
| "default_of Knowledge = default_domainKnowledge"

text \<open>
  The category a line is assigned to: the first one, in the order of the \<open>if\<close> chain,
  whose label the line holds.
\<close>

definition classify :: "string \<Rightarrow> category option" where
  "classify line =
     (if has_top_label line then Some Strengths
      else if has_practical_label line then Some Experience
      else if has_domain_label line then Some Knowledge
      else None)"

text \<open>
  A spelling of the label occurs in the line: a piece of the line whose upper-case form
  is the label.
\<close>

definition label_occurs :: "string \<Rightarrow> string \<Rightarrow> bool" where
  "label_occurs label line =
     (\<exists>before spelling after. line = before @ spelling @ after \<and> toUpperCase spelling = label)"

text \<open>
  A label that neither starts nor ends with the letter S. The upper-case form of the sharp
  s is SS, so only such a label is sure to begin and end where a character of the line
  begins and ends.
\<close>

definition clean_label :: "string \<Rightarrow> bool" where
  "clean_label L = (L \<noteq> [] \<and> hd L \<noteq> CHR ''S'' \<and> last L \<noteq> CHR ''S'')"

text \<open>
  What the fallback splits at: a number followed by a full stop, or one of the words TOP,
  PRACTICAL and DOMAIN in any letter case.
\<close>

definition is_delimiter :: "string \<Rightarrow> bool" where
  "is_delimiter d =
     ((\<exists>ds. ds \<noteq> [] \<and> (\<forall>c\<in>set ds. isDigit c) \<and> d = ds @ ''.'') \<or>
      toUpperCase d = ''TOP'' \<or> toUpperCase d = ''PRACTICAL'' \<or> toUpperCase d = ''DOMAIN'')"

text \<open>The fragments put together again, with a delimiter between each two of them.\<close>

fun weave :: "string list \<Rightarrow> string list \<Rightarrow> string" where
  "weave (p # ps) (d # ds) = p @ d @ weave ps ds"
| "weave [p] [] = p"
| "weave ps ds = []"

text \<open>
  The pattern matches at no position of the piece, when the piece is followed by the rest.
\<close>

definition unmatched :: "string \<Rightarrow> string \<Rightarrow> bool" where
  "unmatched piece rest = (\<forall>i<length piece. section_delimiter (drop i piece @ rest) = None)"

section \<open>Stand-ins for the examples\<close>

text \<open>
  A runtime for the examples: exact arithmetic, whole numbers printed by their digits,
  \<open>toFixed(1)\<close> rounding half up. On the whole ratings of the examples this is what
  IEEE 754 arithmetic and the runtime's printing give.
\<close>

definition example_runtime :: js_runtime where
  "example_runtime =
     \<lparr>number_add = (\<lambda>a b. case (a, b) of (Finite x, Finite y) \<Rightarrow> Finite (x + y) | _ \<Rightarrow> NaN),
      number_divide = (\<lambda>a b. case (a, b) of (Finite x, Finite y) \<Rightarrow> Finite (x / y) | _ \<Rightarrow> NaN),
      number_toString = (\<lambda>a. case a of Finite x \<Rightarrow> show_nat (nat \<lfloor>x\<rfloor>) | _ \<Rightarrow> ''NaN''),
      number_toFixed = (\<lambda>digits a. case a of
          Finite x \<Rightarrow> show_nat (nat \<lfloor>x * 10 + 1 / 2\<rfloor> div 10) @ ''.'' @
                      show_nat (nat \<lfloor>x * 10 + 1 / 2\<rfloor> mod 10)
        | _ \<Rightarrow> ''NaN'')\<rparr>"

text \<open>A response body that carries the text as the first completion.\<close>

definition completion_body :: "string \<Rightarrow> js_value" where
  "completion_body str =
     JObject [(''choices'', JArray [JObject [(''message'', JObject [(''content'', JString str)])]])]"

text \<open>A stubbed completion service: it answers every prompt in the same way.\<close>

definition stub_service :: "js_error + http_response \<Rightarrow> completion_service" where
  "stub_service r = (\<lambda>prompt. r)"

definition example_skills :: js_value where
  "example_skills =
     JArray (map skill_value [\<lparr>name = ''Go'', rating = 5\<rparr>, \<lparr>name = ''SQL'', rating = 2\<rparr>])"

definition labelled_text :: string where
  "labelled_text = ''TOP_STRENGTHS: A\<newline>PRACTICAL EXPERIENCE: B\<newline>DOMAIN_KNOWLEDGE: C''"

definition empty_labels_text :: string where
  "empty_labels_text = ''TOP_STRENGTHS:\<newline>PRACTICAL_EXPERIENCE:\<newline>DOMAIN_KNOWLEDGE:''"

definition numbered_text :: string where
  "numbered_text = ''1. Strong Go.\<newline>2. Builds services.\<newline>3. Knows SQL.''"

section \<open>Equations for evaluating the string operations\<close>

text \<open>
  The upper-case form read off the bits of the character: a lower-case letter has the bits
  5 and 6, and its upper-case form is the same character without the bit 5.
\<close>

lemma toUpperChar_Char [code]:
  "toUpperChar (Char b0 b1 b2 b3 b4 b5 b6 b7) =
     (if b5 \<and> b6 \<and> \<not> b7 \<and> (b0 \<or> b1 \<or> b2 \<or> b3 \<or> b4) \<and> \<not> (b4 \<and> b3 \<and> (b2 \<or> b1 \<and> b0))
      then [Char b0 b1 b2 b3 b4 False b6 b7]
      else if b5 \<and> b6 \<and> b7 \<and> \<not> (b4 \<and> b2 \<and> b1 \<and> b0)
      then [Char b0 b1 b2 b3 b4 False b6 b7]
      else if b0 \<and> b1 \<and> b2 \<and> b3 \<and> b4 \<and> \<not> b5 \<and> b6 \<and> b7 then ''SS''
      else [Char b0 b1 b2 b3 b4 b5 b6 b7])"
  by (cases b0; cases b1; cases b2; cases b3; cases b4; cases b5; cases b6; cases b7)
     (simp_all add: toUpperChar_def char_of_def bit_Suc_0_iff)

lemma toUpperChar_single_high:
  "toUpperChar c = [u] \<Longrightarrow> 128 \<le> (of_char c :: nat) \<Longrightarrow> 128 \<le> (of_char u :: nat)"
  by (auto simp: toUpperChar_def Let_def split: if_splits)

lemma canonicalize_code [code]:
  "canonicalize c = (case toUpperChar c of [u] \<Rightarrow> u | _ \<Rightarrow> c)"
  using toUpperChar_single_high [of c]
  by (auto simp: canonicalize_def split: list.splits)

lemma matches_here_code [code]:
  "matches_here [] s = True"
  "matches_here (p # ps) [] = False"
  "matches_here (p # ps) (c # cs) =
     (if canonicalize c = canonicalize p then matches_here ps cs else False)"
  by (auto simp: matches_here_def)

section \<open>Properties of the validator and of \<open>SkillsFeedback\<close>\<close>

lemma trim_Nil [simp]: "trim [] = []"
  by (simp add: trim_def)

lemma validate_skills_valid:
  "list_all valid_skill skills \<Longrightarrow>
   validate_skills (map skill_value skills) = Inr \<lparr>isValid = True, message = None\<rparr>"
  by (induction skills) (auto simp: valid_skill_def skill_value_def get_property_def)

lemma validate_skills_message:
  "validate_skills xs = Inr v \<Longrightarrow> \<not> isValid v \<Longrightarrow> \<exists>m. message v = Some m"
  by (induction xs) (auto split: sum.splits if_splits)

lemma validateInput_message:
  "validateInput skills c = Inr v \<Longrightarrow> \<not> isValid v \<Longrightarrow> \<exists>m. message v = Some m"
  by (auto simp: validateInput_def split: if_splits dest: validate_skills_message)

lemma example_request_valid:
  "valid_request [\<lparr>name = ''Go'', rating = 5\<rparr>, \<lparr>name = ''SQL'', rating = 2\<rparr>] ''solid''"
  by (simp add: valid_request_def valid_skill_def trim_def isWhiteSpace_def)

lemma example_validation:
  "validateInput example_skills (JString ''solid'') = Inr \<lparr>isValid = True, message = None\<rparr>"
  by (simp add: example_skills_def validateInput_def get_property_def trim_def
      isWhiteSpace_def skill_value_def)

text \<open>
  Claim C4. For every valid request the validator returns \<open>isValid: true\<close>; for the empty
  list of skills it returns \<open>isValid: false\<close> with the message
  "Invalid input. Please provide an array of skills.", whatever the comment is: this
  check comes first.
\<close>

theorem validateInput_valid_and_empty:
  "(valid_request skills overallComment \<longrightarrow>
      validateInput (JArray (map skill_value skills)) (JString overallComment) =
        Inr \<lparr>isValid = True, message = None\<rparr>) \<and>
   validateInput (JArray []) anyComment =
     Inr \<lparr>isValid = False,
          message = Some ''Invalid input. Please provide an array of skills.''\<rparr>"
  by (auto simp: validateInput_def valid_request_def validate_skills_valid)

theorem validateInput_valid_and_empty_witness:
  "valid_request [\<lparr>name = ''Go'', rating = 5\<rparr>, \<lparr>name = ''SQL'', rating = 2\<rparr>] ''solid'' \<and>
   validateInput
     (JArray (map skill_value [\<lparr>name = ''Go'', rating = 5\<rparr>, \<lparr>name = ''SQL'', rating = 2\<rparr>]))
     (JString ''solid'') = Inr \<lparr>isValid = True, message = None\<rparr> \<and>
   validateInput (JArray []) JNull =
     Inr \<lparr>isValid = False,
          message = Some ''Invalid input. Please provide an array of skills.''\<rparr>"
  using example_request_valid
    validateInput_valid_and_empty
      [of "[\<lparr>name = ''Go'', rating = 5\<rparr>, \<lparr>name = ''SQL'', rating = 2\<rparr>]" "''solid''" JNull]
  by blast

text \<open>
  Claim C3. When the validation fails, \<open>SkillsFeedback\<close> returns
  \<open>{success: false, error: message}\<close> with the validator's message and makes no completion
  call.
\<close>

theorem validation_failure_returns_error:
  assumes "validateInput skills overallComment = Inr v" and "\<not> isValid v"
  shows "\<exists>m. message v = Some m \<and>
      SkillsFeedback rt fetch skills overallComment =
        (Inr (JObject [(''success'', JBoolean False), (''error'', JString m)]), [])"
  using assms validateInput_message [OF assms]
  by (auto simp: SkillsFeedback_def message_value_def)

theorem validation_failure_returns_error_witness:
  "\<forall>rt fetch.
     SkillsFeedback rt fetch
       (JArray [JObject [(''name'', JString ''Go''), (''rating'', JNumber (Finite 6))]])
       (JString ''solid'') =
     (Inr (JObject
        [(''success'', JBoolean False),
         (''error'', JString ''Each skill must have a rating between 1 and 5.'')]), [])"
proof (intro allI)
  fix rt fetch
  let ?s = "JArray [JObject [(''name'', JString ''Go''), (''rating'', JNumber (Finite 6))]]"
  let ?v = "\<lparr>isValid = False,
             message = Some ''Each skill must have a rating between 1 and 5.''\<rparr>"
  have h: "validateInput ?s (JString ''solid'') = Inr ?v"
    by (simp add: validateInput_def get_property_def trim_def isWhiteSpace_def)
  have n: "\<not> isValid ?v"
    by simp
  show "SkillsFeedback rt fetch ?s (JString ''solid'') =
      (Inr (JObject
        [(''success'', JBoolean False),
         (''error'', JString ''Each skill must have a rating between 1 and 5.'')]), [])"
    using validation_failure_returns_error [OF h n, of rt fetch] by simp
qed

lemma try_block_failed: "upstream_failed (fetch p) \<Longrightarrow> \<exists>e. try_block fetch p = Inl e"
  by (auto simp: upstream_failed_def try_block_def split: sum.splits)

text \<open>
  Claim C7. When the validation has passed and the completion call throws or returns a
  response that is not \<open>ok\<close>, \<open>SkillsFeedback\<close> returns (and does not throw)
  \<open>success: false\<close>, \<open>error: 'Failed to generate feedback'\<close> and a feedback object whose
  three fields all are "Unable to generate feedback at this time.".
\<close>

theorem upstream_failure_result:
  assumes "validateInput skills overallComment = Inr v" and "isValid v"
    and "upstream_failed
           (fetch (build_prompt rt (array_elements skills) (string_value overallComment)))"
  shows "SkillsFeedback rt fetch skills overallComment =
      (Inr (JObject
         [(''success'', JBoolean False),
          (''error'', JString ''Failed to generate feedback''),
          (''feedback'', JObject
             [(''Top_strength'', JString ''Unable to generate feedback at this time.''),
              (''practical_Experience'', JString ''Unable to generate feedback at this time.''),
              (''DOmain_Knowledge'', JString ''Unable to generate feedback at this time.'')])]),
       [build_prompt rt (array_elements skills) (string_value overallComment)])"
  using assms(1,2) try_block_failed [of fetch, OF assms(3)]
  by (auto simp: SkillsFeedback_def Let_def failure_result_def)

theorem upstream_failure_result_witness:
  "upstream_failed (Inr (HttpResponse False (Inl SyntaxError))) \<and>
   SkillsFeedback example_runtime (stub_service (Inr (HttpResponse False (Inl SyntaxError))))
     example_skills (JString ''solid'') =
      (Inr (JObject
         [(''success'', JBoolean False),
          (''error'', JString ''Failed to generate feedback''),
          (''feedback'', JObject
             [(''Top_strength'', JString ''Unable to generate feedback at this time.''),
              (''practical_Experience'', JString ''Unable to generate feedback at this time.''),
              (''DOmain_Knowledge'', JString ''Unable to generate feedback at this time.'')])]),
       [build_prompt example_runtime (array_elements example_skills) ''solid''])"
proof -
  have u: "upstream_failed (Inr (HttpResponse False (Inl SyntaxError)))"
    by (simp add: upstream_failed_def)
  have t: "isValid \<lparr>isValid = True, message = None\<rparr>"
    by simp
  have f: "upstream_failed
      (stub_service (Inr (HttpResponse False (Inl SyntaxError)))
         (build_prompt example_runtime (array_elements example_skills)
            (string_value (JString ''solid''))))"
    by (simp add: stub_service_def upstream_failed_def)
  show ?thesis
    using u
      upstream_failure_result
        [where fetch = "stub_service (Inr (HttpResponse False (Inl SyntaxError)))"
           and rt = example_runtime, OF example_validation t f]
    by simp
qed

lemma SkillsFeedback_success:
  assumes "validateInput skills overallComment = Inr v" and "isValid v"
    and "fetch (build_prompt rt (array_elements skills) (string_value overallComment)) =
           Inr response"
    and "ok response" and "json response = Inr data"
    and "message_content data = Inr (JString feedbackText)"
  shows "SkillsFeedback rt fetch skills overallComment =
      (Inr (JObject
         [(''success'', JBoolean True),
          (''feedback'', JObject
            [(''Top_strength'', JString (topStrengths (parseFeedbackResponse feedbackText))),
             (''practical_Experience'',
                JString (practicalExperience (parseFeedbackResponse feedbackText))),
             (''DOmain_Knowledge'', JString (domainKnowledge (parseFeedbackResponse feedbackText)))])]),
       [build_prompt rt (array_elements skills) (string_value overallComment)])"
  using assms by (simp add: SkillsFeedback_def Let_def try_block_def success_result_def)

lemma message_content_completion_body:
  "message_content (completion_body str) = Inr (JString str)"
  by (simp add: message_content_def completion_body_def get_property_def)

lemma parse_labelled_text:
  "parseFeedbackResponse labelled_text =
     \<lparr>topStrengths = ''A'', practicalExperience = ''B'', domainKnowledge = ''C''\<rparr>"
  unfolding labelled_text_def by code_simp

lemma SkillsFeedback_example:
  "SkillsFeedback example_runtime
      (stub_service (Inr (HttpResponse True (Inr (completion_body labelled_text)))))
      example_skills (JString ''solid'') =
    (Inr (JObject
         [(''success'', JBoolean True),
          (''feedback'', JObject
            [(''Top_strength'', JString ''A''),
             (''practical_Experience'', JString ''B''),
             (''DOmain_Knowledge'', JString ''C'')])]),
     [build_prompt example_runtime (array_elements example_skills) ''solid''])"
proof -
  have t: "isValid \<lparr>isValid = True, message = None\<rparr>"
    by simp
  have f: "stub_service (Inr (HttpResponse True (Inr (completion_body labelled_text))))
      (build_prompt example_runtime (array_elements example_skills)
         (string_value (JString ''solid''))) =
      Inr (HttpResponse True (Inr (completion_body labelled_text)))"
    by (simp add: stub_service_def)
  show ?thesis
    using SkillsFeedback_success
        [where fetch = "stub_service (Inr (HttpResponse True (Inr (completion_body labelled_text))))"
           and rt = example_runtime and data = "completion_body labelled_text"
           and feedbackText = labelled_text,
         OF example_validation t f _ _ message_content_completion_body]
    by (simp add: parse_labelled_text)
qed

text \<open>
  Claim C2, as the code has it. For every request that passes the validation and whose
  completion call succeeds (the response is \<open>ok\<close>, its body can be read and
  \<open>choices[0].message.content\<close> is a string), the result has \<open>success: true\<close> and a
  feedback object whose fields are named \<open>Top_strength\<close>, \<open>practical_Experience\<close> and
  \<open>DOmain_Knowledge\<close>; they hold the parser's \<open>topStrengths\<close>, \<open>practicalExperience\<close> and
  \<open>domainKnowledge\<close>.
\<close>

theorem success_result_fields:
  assumes "validateInput skills overallComment = Inr v" and "isValid v"
    and "fetch (build_prompt rt (array_elements skills) (string_value overallComment)) =
           Inr response"
    and "ok response" and "json response = Inr data"
    and "message_content data = Inr (JString feedbackText)"
  shows "SkillsFeedback rt fetch skills overallComment =
      (Inr (JObject
         [(''success'', JBoolean True),
          (''feedback'', JObject
            [(''Top_strength'', JString (topStrengths (parseFeedbackResponse feedbackText))),
             (''practical_Experience'',
                JString (practicalExperience (parseFeedbackResponse feedbackText))),
             (''DOmain_Knowledge'', JString (domainKnowledge (parseFeedbackResponse feedbackText)))])]),
       [build_prompt rt (array_elements skills) (string_value overallComment)])"
  using assms by (rule SkillsFeedback_success)

theorem success_result_fields_witness:
  "SkillsFeedback example_runtime
      (stub_service (Inr (HttpResponse True (Inr (completion_body labelled_text)))))
      example_skills (JString ''solid'') =
    (Inr (JObject
         [(''success'', JBoolean True),
          (''feedback'', JObject
            [(''Top_strength'', JString ''A''),
             (''practical_Experience'', JString ''B''),
             (''DOmain_Knowledge'', JString ''C'')])]),
     [build_prompt example_runtime (array_elements example_skills) ''solid''])"
proof -
  have t: "isValid \<lparr>isValid = True, message = None\<rparr>"
    by simp
  have f: "stub_service (Inr (HttpResponse True (Inr (completion_body labelled_text))))
      (build_prompt example_runtime (array_elements example_skills)
         (string_value (JString ''solid''))) =
      Inr (HttpResponse True (Inr (completion_body labelled_text)))"
    by (simp add: stub_service_def)
  show ?thesis
    using success_result_fields
        [where fetch = "stub_service (Inr (HttpResponse True (Inr (completion_body labelled_text))))"
           and rt = example_runtime and data = "completion_body labelled_text"
           and feedbackText = labelled_text,
         OF example_validation t f _ _ message_content_completion_body]
    by (simp add: parse_labelled_text)
qed

text \<open>
  The claim C2 as the specification states it fails: in the result for the example
  request, answered with a well-labelled text, the fields of the feedback object are not
  named \<open>topStrengths\<close>, \<open>practicalExperience\<close> and \<open>domainKnowledge\<close>.
\<close>

theorem feedback_field_names_counterexample:
  "fst (SkillsFeedback example_runtime
      (stub_service (Inr (HttpResponse True (Inr (completion_body labelled_text)))))
      example_skills (JString ''solid'')) =
    Inr (JObject
         [(''success'', JBoolean True),
          (''feedback'', JObject
            [(''Top_strength'', JString ''A''),
             (''practical_Experience'', JString ''B''),
             (''DOmain_Knowledge'', JString ''C'')])]) \<and>
   property_names (JObject
            [(''Top_strength'', JString ''A''),
             (''practical_Experience'', JString ''B''),
             (''DOmain_Knowledge'', JString ''C'')]) \<noteq>
     [''topStrengths'', ''practicalExperience'', ''domainKnowledge'']"
  by (simp add: SkillsFeedback_example property_names_def)

text \<open>
  Claim C9. The prompt is a function of the skills and the comment alone: two runs on the
  same skills and comment pass the same prompts to the completion service, however the
  service answers; a run passes no prompt or the one prompt that \<open>build_prompt\<close> renders
  from the skill lines, the average rating and the two counts.
\<close>

theorem prompt_deterministic:
  "snd (SkillsFeedback rt fetch skills overallComment) =
     snd (SkillsFeedback rt fetch' skills overallComment) \<and>
   snd (SkillsFeedback rt fetch skills overallComment) \<in>
     {[], [prompt_template (skillsText rt (array_elements skills)) (string_value overallComment)
            (show_nat (length (array_elements skills)))
            (averageRating rt (array_elements skills))
            (show_nat (highRatedSkills (array_elements skills)))
            (show_nat (lowRatedSkills (array_elements skills)))]}"
  by (simp add: SkillsFeedback_def Let_def build_prompt_def split: sum.splits)

section \<open>Properties of the parser\<close>

text \<open>
  Claim C1. For every input string, each of the three fields of the result of
  \<open>parseFeedbackResponse\<close> is a non-empty string.
\<close>

theorem parseFeedbackResponse_fields_nonempty:
  "topStrengths (parseFeedbackResponse feedbackText) \<noteq> [] \<and>
   practicalExperience (parseFeedbackResponse feedbackText) \<noteq> [] \<and>
   domainKnowledge (parseFeedbackResponse feedbackText) \<noteq> []"
  by (simp add: parseFeedbackResponse_def Let_def or_else_def default_topStrengths_def
      default_practicalExperience_def default_domainKnowledge_def)

lemma dropWhile_all_iff: "(\<forall>c\<in>set (dropWhile P s). P c) \<longleftrightarrow> (\<forall>c\<in>set s. P c)"
proof
  assume a: "\<forall>c\<in>set (dropWhile P s). P c"
  have "dropWhile P s = []"
  proof (rule ccontr)
    assume n: "dropWhile P s \<noteq> []"
    then have "\<not> P (hd (dropWhile P s))" by (rule hd_dropWhile)
    moreover have "hd (dropWhile P s) \<in> set (dropWhile P s)" using n by simp
    ultimately show False using a by blast
  qed
  then show "\<forall>c\<in>set s. P c" by (simp add: dropWhile_eq_Nil_conv)
next
  assume "\<forall>c\<in>set s. P c"
  then show "\<forall>c\<in>set (dropWhile P s). P c" by (auto dest: set_dropWhileD)
qed

lemma trim_eq_Nil_iff: "trim s = [] \<longleftrightarrow> (\<forall>c\<in>set s. isWhiteSpace c)"
proof -
  have "trim s = [] \<longleftrightarrow> (\<forall>c\<in>set (dropWhile isWhiteSpace s). isWhiteSpace c)"
    by (simp add: trim_def dropWhile_eq_Nil_conv)
  then show ?thesis by (simp add: dropWhile_all_iff)
qed

lemma split_newline_from_append:
  "CHR 0x0A \<notin> set l \<Longrightarrow>
   split_newline_from piece (l @ rest) = split_newline_from (piece @ l) rest"
  by (induction l arbitrary: piece) auto

lemma split_newline_from_join:
  "\<forall>l\<in>set ls. CHR 0x0A \<notin> set l \<Longrightarrow> ls \<noteq> [] \<Longrightarrow>
   split_newline_from piece (join_newline ls) = (piece @ hd ls) # tl ls"
proof (induction ls arbitrary: piece rule: join_newline.induct)
  case 1
  then show ?case by simp
next
  case (2 l)
  then show ?case
    using split_newline_from_append [of l piece "[]"] by simp
next
  case (3 l m ls)
  then show ?case
    using split_newline_from_append [of l piece "CHR 0x0A # join_newline (m # ls)"] by simp
qed

lemma nonblank_lines_join:
  assumes "\<forall>l\<in>set ls. CHR 0x0A \<notin> set l"
  shows "nonblank_lines (join_newline ls) = filter (\<lambda>l. trim l \<noteq> []) ls"
proof (cases "ls = []")
  case True
  then show ?thesis by (simp add: nonblank_lines_def split_newline_def)
next
  case False
  then show ?thesis
    using split_newline_from_join [OF assms False, of "[]"]
    by (simp add: nonblank_lines_def split_newline_def)
qed

lemma field_scan_line:
  "field c (scan_line st l) = (if classify l = Some c then strip_label c l else field c st)"
  by (cases c) (auto simp: scan_line_def classify_def)

lemma field_foldl_scan_line:
  "field c (foldl scan_line st ls) =
     (if filter (\<lambda>l. classify l = Some c) ls = [] then field c st
      else strip_label c (last (filter (\<lambda>l. classify l = Some c) ls)))"
  by (induction ls rule: rev_induct) (auto simp: field_scan_line)

lemma field_scan_lines:
  "field c (scan_lines ls) =
     (if filter (\<lambda>l. classify l = Some c) ls = [] then []
      else strip_label c (last (filter (\<lambda>l. classify l = Some c) ls)))"
  unfolding scan_lines_def field_foldl_scan_line by (cases c) simp_all

lemma parse_field:
  "field c (parseFeedbackResponse t) =
     or_else (field c (fallback_sections t (scan_lines (nonblank_lines t)))) (default_of c)"
  by (cases c) (simp_all add: parseFeedbackResponse_def Let_def)

lemma fallback_sections_captured: "field c st \<noteq> [] \<Longrightarrow> fallback_sections t st = st"
  by (cases c) (auto simp: fallback_sections_def)

lemma parse_field_captured:
  "field c' (scan_lines (nonblank_lines t)) \<noteq> [] \<Longrightarrow>
   field c (parseFeedbackResponse t) =
     or_else (field c (scan_lines (nonblank_lines t))) (default_of c)"
  by (simp add: parse_field fallback_sections_captured)

lemma parse_eq_fields:
  "parseFeedbackResponse t =
     \<lparr>topStrengths = field Strengths (parseFeedbackResponse t),
      practicalExperience = field Experience (parseFeedbackResponse t),
      domainKnowledge = field Knowledge (parseFeedbackResponse t)\<rparr>"
  by (simp add: parseFeedbackResponse_def Let_def)

lemma str_includes_iff: "str_includes s pat \<longleftrightarrow> (\<exists>pre post. s = pre @ pat @ post)"
proof (induction s)
  case Nil
  then show ?case by auto
next
  case (Cons c cs)
  show ?case
  proof
    assume "str_includes (c # cs) pat"
    then consider "prefix pat (c # cs)" | "str_includes cs pat" by auto
    then show "\<exists>pre post. c # cs = pre @ pat @ post"
    proof cases
      case 1
      then obtain post where "c # cs = pat @ post" by (auto simp: prefix_def)
      then have "c # cs = [] @ pat @ post" by simp
      then show ?thesis by blast
    next
      case 2
      then obtain pre post where "cs = pre @ pat @ post" using Cons.IH by blast
      then have "c # cs = (c # pre) @ pat @ post" by simp
      then show ?thesis by blast
    qed
  next
    assume "\<exists>pre post. c # cs = pre @ pat @ post"
    then obtain pre post where e: "c # cs = pre @ pat @ post" by blast
    show "str_includes (c # cs) pat"
    proof (cases pre)
      case Nil
      then have "prefix pat (c # cs)" using e by (simp add: prefix_def)
      then show ?thesis by simp
    next
      case (Cons p pre')
      then have "cs = pre' @ pat @ post" using e by simp
      then show ?thesis using Cons.IH by auto
    qed
  qed
qed

lemma isWhiteSpace_toUpperChar: "isWhiteSpace c \<Longrightarrow> toUpperChar c = [c]"
  by (auto simp: isWhiteSpace_def toUpperChar_def)

lemma toUpperCase_blank: "\<forall>c\<in>set l. isWhiteSpace c \<Longrightarrow> toUpperCase l = l"
  by (induction l) (simp_all add: toUpperCase_def isWhiteSpace_toUpperChar)

lemma blank_not_includes:
  assumes "trim l = []" and "CHR '':'' \<in> set label"
  shows "\<not> str_includes (toUpperCase l) label"
proof
  assume "str_includes (toUpperCase l) label"
  then obtain pre post where "toUpperCase l = pre @ label @ post"
    by (auto simp: str_includes_iff)
  moreover have "toUpperCase l = l"
    using assms(1) by (simp add: trim_eq_Nil_iff toUpperCase_blank)
  ultimately have "CHR '':'' \<in> set l" using assms(2) by auto
  then have "isWhiteSpace (CHR '':'')" using assms(1) by (simp add: trim_eq_Nil_iff)
  then show False by (simp add: isWhiteSpace_def)
qed

lemma classify_nonblank: "classify l = Some c \<Longrightarrow> trim l \<noteq> []"
  using blank_not_includes [of l]
  by (auto simp: classify_def has_top_label_def has_practical_label_def has_domain_label_def
      split: if_splits)

lemma filter_classified_nonblank:
  "filter (\<lambda>l. classify l = Some c) (filter (\<lambda>l. trim l \<noteq> []) ls) =
   filter (\<lambda>l. classify l = Some c) ls"
  by (induction ls) (auto dest: classify_nonblank)

lemma classify_examples:
  "classify ''TOP_STRENGTHS: A'' = Some Strengths"
  "classify ''PRACTICAL EXPERIENCE: B'' = Some Experience"
  "classify ''DOMAIN_KNOWLEDGE: C'' = Some Knowledge"
  by code_simp+

lemma strip_examples:
  "strip_top ''TOP_STRENGTHS: A'' = ''A''"
  "strip_practical ''PRACTICAL EXPERIENCE: B'' = ''B''"
  "strip_domain ''DOMAIN_KNOWLEDGE: C'' = ''C''"
  by code_simp+

lemma filter_three:
  assumes "mset xs = {#''TOP_STRENGTHS: A'', ''PRACTICAL EXPERIENCE: B'', ''DOMAIN_KNOWLEDGE: C''#}"
  shows "filter (\<lambda>l. classify l = Some Strengths) xs = [''TOP_STRENGTHS: A'']"
    and "filter (\<lambda>l. classify l = Some Experience) xs = [''PRACTICAL EXPERIENCE: B'']"
    and "filter (\<lambda>l. classify l = Some Knowledge) xs = [''DOMAIN_KNOWLEDGE: C'']"
proof -
  have "mset (filter (\<lambda>l. classify l = Some c) xs) =
      filter_mset (\<lambda>l. classify l = Some c)
        {#''TOP_STRENGTHS: A'', ''PRACTICAL EXPERIENCE: B'', ''DOMAIN_KNOWLEDGE: C''#}" for c
    using assms by simp
  then have
    "mset (filter (\<lambda>l. classify l = Some Strengths) xs) = {#''TOP_STRENGTHS: A''#}"
    "mset (filter (\<lambda>l. classify l = Some Experience) xs) = {#''PRACTICAL EXPERIENCE: B''#}"
    "mset (filter (\<lambda>l. classify l = Some Knowledge) xs) = {#''DOMAIN_KNOWLEDGE: C''#}"
    by (simp_all add: classify_examples)
  then show "filter (\<lambda>l. classify l = Some Strengths) xs = [''TOP_STRENGTHS: A'']"
    and "filter (\<lambda>l. classify l = Some Experience) xs = [''PRACTICAL EXPERIENCE: B'']"
    and "filter (\<lambda>l. classify l = Some Knowledge) xs = [''DOMAIN_KNOWLEDGE: C'']"
    by (simp_all only: mset_single_iff)
qed

lemma scan_three:
  assumes "mset xs = {#''TOP_STRENGTHS: A'', ''PRACTICAL EXPERIENCE: B'', ''DOMAIN_KNOWLEDGE: C''#}"
  shows "field Strengths (scan_lines xs) = ''A''"
    and "field Experience (scan_lines xs) = ''B''"
    and "field Knowledge (scan_lines xs) = ''C''"
  by (simp_all add: field_scan_lines filter_three [OF assms] strip_examples)

lemma parse_three:
  assumes "\<forall>l\<in>set ls. CHR 0x0A \<notin> set l"
    and "mset (filter (\<lambda>l. trim l \<noteq> []) ls) =
      {#''TOP_STRENGTHS: A'', ''PRACTICAL EXPERIENCE: B'', ''DOMAIN_KNOWLEDGE: C''#}"
  shows "parseFeedbackResponse (join_newline ls) =
      \<lparr>topStrengths = ''A'', practicalExperience = ''B'', domainKnowledge = ''C''\<rparr>"
proof -
  let ?t = "join_newline ls"
  have n: "nonblank_lines ?t = filter (\<lambda>l. trim l \<noteq> []) ls"
    using assms(1) by (rule nonblank_lines_join)
  have s: "field Strengths (scan_lines (nonblank_lines ?t)) = ''A''"
    "field Experience (scan_lines (nonblank_lines ?t)) = ''B''"
    "field Knowledge (scan_lines (nonblank_lines ?t)) = ''C''"
    unfolding n using scan_three [OF assms(2)] by simp_all
  have c: "field Strengths (scan_lines (nonblank_lines ?t)) \<noteq> []"
    unfolding s by simp
  have "field Strengths (parseFeedbackResponse ?t) = ''A''"
    "field Experience (parseFeedbackResponse ?t) = ''B''"
    "field Knowledge (parseFeedbackResponse ?t) = ''C''"
    unfolding parse_field_captured [OF c] s by (simp_all add: or_else_def)
  then show ?thesis
    using parse_eq_fields [of ?t] by simp
qed

lemma parse_last_wins:
  assumes "\<forall>l\<in>set ls. CHR 0x0A \<notin> set l"
    and "filter (\<lambda>l. classify l = Some c) ls \<noteq> []"
    and "strip_label c (last (filter (\<lambda>l. classify l = Some c) ls)) \<noteq> []"
  shows "field c (parseFeedbackResponse (join_newline ls)) =
      strip_label c (last (filter (\<lambda>l. classify l = Some c) ls))"
proof -
  let ?t = "join_newline ls"
  have n: "nonblank_lines ?t = filter (\<lambda>l. trim l \<noteq> []) ls"
    using assms(1) by (rule nonblank_lines_join)
  have s: "field c (scan_lines (nonblank_lines ?t)) =
      strip_label c (last (filter (\<lambda>l. classify l = Some c) ls))"
    unfolding n field_scan_lines filter_classified_nonblank using assms(2) by simp
  then have "field c (scan_lines (nonblank_lines ?t)) \<noteq> []"
    using assms(3) by simp
  from parse_field_captured [OF this, of c] show ?thesis
    unfolding s using assms(3) by (simp add: or_else_def)
qed

text \<open>
  Claim C5. Let the lines of the text be the three lines "TOP_STRENGTHS: A",
  "PRACTICAL EXPERIENCE: B" and "DOMAIN_KNOWLEDGE: C" in any order, with blank lines
  anywhere among them: the parser yields A, B and C. And for any lines: when lines are
  assigned to a category, the value of the last of them is the field of the result (the
  value being non-empty).
\<close>

theorem labelled_lines_any_order_last_wins:
  "((\<forall>l\<in>set ls. CHR 0x0A \<notin> set l) \<and>
    mset (filter (\<lambda>l. trim l \<noteq> []) ls) =
      {#''TOP_STRENGTHS: A'', ''PRACTICAL EXPERIENCE: B'', ''DOMAIN_KNOWLEDGE: C''#} \<longrightarrow>
    parseFeedbackResponse (join_newline ls) =
      \<lparr>topStrengths = ''A'', practicalExperience = ''B'', domainKnowledge = ''C''\<rparr>) \<and>
   ((\<forall>l\<in>set ms. CHR 0x0A \<notin> set l) \<and>
    filter (\<lambda>l. classify l = Some c) ms \<noteq> [] \<and>
    strip_label c (last (filter (\<lambda>l. classify l = Some c) ms)) \<noteq> [] \<longrightarrow>
    field c (parseFeedbackResponse (join_newline ms)) =
      strip_label c (last (filter (\<lambda>l. classify l = Some c) ms)))"
  using parse_three [of ls] parse_last_wins [of ms c] by blast

theorem labelled_lines_any_order_last_wins_witness:
  "parseFeedbackResponse
     (join_newline
        [''DOMAIN_KNOWLEDGE: C'', [], ''TOP_STRENGTHS: A'', ''  '', ''PRACTICAL EXPERIENCE: B'']) =
     \<lparr>topStrengths = ''A'', practicalExperience = ''B'', domainKnowledge = ''C''\<rparr> \<and>
   field Experience
     (parseFeedbackResponse
        (join_newline
           [''PRACTICAL EXPERIENCE: old'', ''TOP_STRENGTHS: x'', ''practical_experience: new''])) =
     ''new''"
proof -
  let ?ls = "[''DOMAIN_KNOWLEDGE: C'', [], ''TOP_STRENGTHS: A'', ''  '', ''PRACTICAL EXPERIENCE: B'']"
  let ?ms = "[''PRACTICAL EXPERIENCE: old'', ''TOP_STRENGTHS: x'', ''practical_experience: new'']"
  have a: "\<forall>l\<in>set ?ls. CHR 0x0A \<notin> set l"
    by simp
  have f: "filter (\<lambda>l. trim l \<noteq> []) ?ls =
      [''DOMAIN_KNOWLEDGE: C'', ''TOP_STRENGTHS: A'', ''PRACTICAL EXPERIENCE: B'']"
    by code_simp
  have b: "mset (filter (\<lambda>l. trim l \<noteq> []) ?ls) =
      {#''TOP_STRENGTHS: A'', ''PRACTICAL EXPERIENCE: B'', ''DOMAIN_KNOWLEDGE: C''#}"
    unfolding f by simp
  have c: "\<forall>l\<in>set ?ms. CHR 0x0A \<notin> set l"
    by simp
  have g: "filter (\<lambda>l. classify l = Some Experience) ?ms =
      [''PRACTICAL EXPERIENCE: old'', ''practical_experience: new'']"
    by code_simp
  have h: "strip_label Experience ''practical_experience: new'' = ''new''"
    by code_simp
  have d: "filter (\<lambda>l. classify l = Some Experience) ?ms \<noteq> [] \<and>
      strip_label Experience (last (filter (\<lambda>l. classify l = Some Experience) ?ms)) \<noteq> []"
    unfolding g using h by simp
  have e: "strip_label Experience (last (filter (\<lambda>l. classify l = Some Experience) ?ms)) =
      ''new''"
    unfolding g using h by simp
  from labelled_lines_any_order_last_wins [of ?ls ?ms Experience] a b c d
  have "parseFeedbackResponse (join_newline ?ls) =
      \<lparr>topStrengths = ''A'', practicalExperience = ''B'', domainKnowledge = ''C''\<rparr> \<and>
    field Experience (parseFeedbackResponse (join_newline ?ms)) =
      strip_label Experience (last (filter (\<lambda>l. classify l = Some Experience) ?ms))"
    by blast
  then show ?thesis
    unfolding e .
qed

lemma toUpperChar_cases: "toUpperChar c = ''SS'' \<or> (\<exists>u. toUpperChar c = [u])"
  by (simp add: toUpperChar_def Let_def)

lemma toUpperCase_Cons: "toUpperCase (c # cs) = toUpperChar c @ toUpperCase cs"
  by (simp add: toUpperCase_def)

lemma toUpperCase_append: "toUpperCase (xs @ ys) = toUpperCase xs @ toUpperCase ys"
  by (simp add: toUpperCase_def)

lemma toUpperCase_Nil: "toUpperCase [] = []"
  by (simp add: toUpperCase_def)

lemma upper_prefix_origin:
  "L = [] \<or> last L \<noteq> CHR ''S'' \<Longrightarrow> prefix L (toUpperCase s) \<Longrightarrow>
   \<exists>m. prefix m s \<and> toUpperCase m = L"
proof (induction s arbitrary: L)
  case Nil
  then show ?case by (auto simp: toUpperCase_Nil)
next
  case (Cons c cs)
  show ?case
  proof (cases L)
    case Nil
    then show ?thesis by (auto simp: toUpperCase_Nil intro: exI [of _ "[]"])
  next
    case (Cons x L')
    note L = Cons
    from toUpperChar_cases [of c] show ?thesis
    proof
      assume ss: "toUpperChar c = ''SS''"
      with Cons.prems(2) L have p: "prefix (x # L') (CHR ''S'' # CHR ''S'' # toUpperCase cs)"
        by (simp add: toUpperCase_Cons)
      then have x: "x = CHR ''S''" and p': "prefix L' (CHR ''S'' # toUpperCase cs)" by auto
      from Cons.prems(1) L x have "L' \<noteq> []" by auto
      then obtain y L'' where L': "L' = y # L''" by (cases L') auto
      with p' have y: "y = CHR ''S''" and p'': "prefix L'' (toUpperCase cs)" by auto
      have "L'' = [] \<or> last L'' \<noteq> CHR ''S''"
        using Cons.prems(1) L L' y x by (cases L'') auto
      from Cons.IH [OF this p''] obtain m where m: "prefix m cs" "toUpperCase m = L''" by blast
      have "prefix (c # m) (c # cs) \<and> toUpperCase (c # m) = L"
        using m ss L L' x y by (simp add: toUpperCase_Cons)
      then show ?thesis by blast
    next
      assume "\<exists>u. toUpperChar c = [u]"
      then obtain u where u: "toUpperChar c = [u]" by blast
      with Cons.prems(2) L have x: "x = u" and p': "prefix L' (toUpperCase cs)"
        by (auto simp: toUpperCase_Cons)
      have "L' = [] \<or> last L' \<noteq> CHR ''S''"
        using Cons.prems(1) L by (cases L') auto
      from Cons.IH [OF this p'] obtain m where m: "prefix m cs" "toUpperCase m = L'" by blast
      have "prefix (c # m) (c # cs) \<and> toUpperCase (c # m) = L"
        using m u L x by (simp add: toUpperCase_Cons)
      then show ?thesis by blast
    qed
  qed
qed

lemma upper_infix_origin:
  "clean_label L \<Longrightarrow> toUpperCase s = P @ L @ Q \<Longrightarrow>
   \<exists>pre m post. s = pre @ m @ post \<and> toUpperCase m = L"
proof (induction s arbitrary: P)
  case Nil
  then show ?case by (simp add: toUpperCase_Nil clean_label_def)
next
  case (Cons c cs)
  have l: "L = [] \<or> last L \<noteq> CHR ''S''"
    using Cons.prems(1) by (simp add: clean_label_def)
  show ?case
  proof (cases P)
    case Nil
    then have "prefix L (toUpperCase (c # cs))" using Cons.prems(2) by (simp add: prefix_def)
    from upper_prefix_origin [OF l this] obtain m where
      m: "prefix m (c # cs)" "toUpperCase m = L" by blast
    then obtain post where "c # cs = [] @ m @ post" by (auto simp: prefix_def)
    then show ?thesis using m(2) by blast
  next
    case (Cons p P')
    note P = Cons
    have step: "toUpperCase cs = P'' @ L @ Q \<Longrightarrow> ?thesis" for P''
    proof -
      assume "toUpperCase cs = P'' @ L @ Q"
      from Cons.IH [OF Cons.prems(1) this] obtain pre m post where
        "cs = pre @ m @ post" "toUpperCase m = L" by blast
      then have "c # cs = (c # pre) @ m @ post \<and> toUpperCase m = L" by simp
      then show ?thesis by blast
    qed
    from toUpperChar_cases [of c] show ?thesis
    proof
      assume ss: "toUpperChar c = ''SS''"
      with Cons.prems(2) P have e: "CHR ''S'' # toUpperCase cs = P' @ L @ Q"
        by (auto simp: toUpperCase_Cons)
      show ?thesis
      proof (cases P')
        case Nil
        then have "hd L = CHR ''S''" using e Cons.prems(1)
          by (cases L) (auto simp: clean_label_def)
        then show ?thesis using Cons.prems(1) by (simp add: clean_label_def)
      next
        case (Cons q P'')
        then have "toUpperCase cs = P'' @ L @ Q" using e by simp
        then show ?thesis by (rule step)
      qed
    next
      assume "\<exists>u. toUpperChar c = [u]"
      then obtain u where u: "toUpperChar c = [u]" by blast
      with Cons.prems(2) P have "toUpperCase cs = P' @ L @ Q"
        by (simp add: toUpperCase_Cons)
      then show ?thesis by (rule step)
    qed
  qed
qed

lemma includes_upper_iff:
  assumes "clean_label L"
  shows "str_includes (toUpperCase line) L \<longleftrightarrow> label_occurs L line"
proof
  assume "str_includes (toUpperCase line) L"
  then obtain P Q where "toUpperCase line = P @ L @ Q" by (auto simp: str_includes_iff)
  from upper_infix_origin [OF assms this] show "label_occurs L line"
    by (simp add: label_occurs_def)
next
  assume "label_occurs L line"
  then obtain b m a where "line = b @ m @ a" "toUpperCase m = L"
    by (auto simp: label_occurs_def)
  then have "toUpperCase line = toUpperCase b @ L @ toUpperCase a"
    by (simp add: toUpperCase_append)
  then show "str_includes (toUpperCase line) L"
    unfolding str_includes_iff by blast
qed

lemma clean_labels:
  "clean_label ''TOP_STRENGTHS:''" "clean_label ''TOP STRENGTHS:''"
  "clean_label ''PRACTICAL_EXPERIENCE:''" "clean_label ''PRACTICAL EXPERIENCE:''"
  "clean_label ''DOMAIN_KNOWLEDGE:''" "clean_label ''DOMAIN KNOWLEDGE:''"
  by (simp_all add: clean_label_def)

lemma has_label_iff:
  "has_top_label line \<longleftrightarrow>
     label_occurs ''TOP_STRENGTHS:'' line \<or> label_occurs ''TOP STRENGTHS:'' line"
  "has_practical_label line \<longleftrightarrow>
     label_occurs ''PRACTICAL_EXPERIENCE:'' line \<or> label_occurs ''PRACTICAL EXPERIENCE:'' line"
  "has_domain_label line \<longleftrightarrow>
     label_occurs ''DOMAIN_KNOWLEDGE:'' line \<or> label_occurs ''DOMAIN KNOWLEDGE:'' line"
  by (simp_all add: has_top_label_def has_practical_label_def has_domain_label_def
      includes_upper_iff clean_labels)

text \<open>
  Claim C10. A line holds a label exactly when a spelling of the label, in any letter
  case, occurs anywhere in the line. A round of the loop assigns at most one variable:
  that of the first category, in the order \<open>topStrengths\<close>, \<open>practicalExperience\<close>,
  \<open>domainKnowledge\<close>, of which the line holds a label; labels of later categories in the
  same line stay in the value.
\<close>

theorem label_anywhere_first_category:
  "(has_top_label line \<longleftrightarrow>
      label_occurs ''TOP_STRENGTHS:'' line \<or> label_occurs ''TOP STRENGTHS:'' line) \<and>
   (has_practical_label line \<longleftrightarrow>
      label_occurs ''PRACTICAL_EXPERIENCE:'' line \<or> label_occurs ''PRACTICAL EXPERIENCE:'' line) \<and>
   (has_domain_label line \<longleftrightarrow>
      label_occurs ''DOMAIN_KNOWLEDGE:'' line \<or> label_occurs ''DOMAIN KNOWLEDGE:'' line) \<and>
   scan_line st line =
     (if label_occurs ''TOP_STRENGTHS:'' line \<or> label_occurs ''TOP STRENGTHS:'' line then
        st\<lparr>topStrengths := strip_top line\<rparr>
      else if label_occurs ''PRACTICAL_EXPERIENCE:'' line \<or>
              label_occurs ''PRACTICAL EXPERIENCE:'' line then
        st\<lparr>practicalExperience := strip_practical line\<rparr>
      else if label_occurs ''DOMAIN_KNOWLEDGE:'' line \<or>
              label_occurs ''DOMAIN KNOWLEDGE:'' line then
        st\<lparr>domainKnowledge := strip_domain line\<rparr>
      else st)"
  unfolding has_label_iff [symmetric] by (simp add: scan_line_def)

theorem label_anywhere_first_category_witness:
  "label_occurs ''DOMAIN KNOWLEDGE:'' ''see domain knowledge: x Top Strengths: y'' \<and>
   label_occurs ''TOP STRENGTHS:'' ''see domain knowledge: x Top Strengths: y'' \<and>
   scan_line \<lparr>topStrengths = [], practicalExperience = [], domainKnowledge = []\<rparr>
     ''see domain knowledge: x Top Strengths: y'' =
   \<lparr>topStrengths = ''see domain knowledge: x  y'', practicalExperience = [],
    domainKnowledge = []\<rparr>"
proof -
  let ?l = "''see domain knowledge: x Top Strengths: y''"
  have u: "toUpperCase ''domain knowledge:'' = ''DOMAIN KNOWLEDGE:''"
    "toUpperCase ''Top Strengths:'' = ''TOP STRENGTHS:''"
    by code_simp+
  have "?l = ''see '' @ ''domain knowledge:'' @ '' x Top Strengths: y''"
    by simp
  then have d: "label_occurs ''DOMAIN KNOWLEDGE:'' ?l"
    unfolding label_occurs_def using u(1) by blast
  have "?l = ''see domain knowledge: x '' @ ''Top Strengths:'' @ '' y''"
    by simp
  then have t: "label_occurs ''TOP STRENGTHS:'' ?l"
    unfolding label_occurs_def using u(2) by blast
  have s: "strip_top ?l = ''see domain knowledge: x  y''"
    by code_simp
  show ?thesis
    using d t s
      label_anywhere_first_category
        [of ?l "\<lparr>topStrengths = [], practicalExperience = [], domainKnowledge = []\<rparr>"]
    by simp
qed

lemma nonblank_sections_nth:
  "i < length (nonblank_sections t) \<Longrightarrow> trim (nonblank_sections t ! i) \<noteq> []"
  using nth_mem [of i "nonblank_sections t"] by (simp add: nonblank_sections_def)

lemma toUpperChar_SS_iff: "toUpperChar c = ''SS'' \<longleftrightarrow> c = CHR 0xDF"
  by (cases c) (simp add: toUpperChar_Char)

lemma canonicalize_eq_upper:
  "w \<noteq> CHR 0xDF \<Longrightarrow> canonicalize c = w \<longleftrightarrow> toUpperChar c = [w]"
  using toUpperChar_cases [of c] toUpperChar_SS_iff [of c]
  by (auto simp: canonicalize_code)

lemma map_canonicalize_eq_upper:
  "CHR 0xDF \<notin> set W \<Longrightarrow> CHR ''S'' \<notin> set W \<Longrightarrow>
   map canonicalize d = W \<longleftrightarrow> toUpperCase d = W"
proof (induction d arbitrary: W)
  case Nil
  then show ?case by (auto simp: toUpperCase_Nil)
next
  case (Cons c d)
  show ?case
  proof (cases W)
    case Nil
    then show ?thesis
      using toUpperChar_cases [of c] by (auto simp: toUpperCase_Cons)
  next
    case (Cons w W')
    then have w: "w \<noteq> CHR 0xDF" "w \<noteq> CHR ''S''" and W': "CHR 0xDF \<notin> set W'" "CHR ''S'' \<notin> set W'"
      using Cons.prems by auto
    have "toUpperChar c @ toUpperCase d = w # W' \<longleftrightarrow> toUpperChar c = [w] \<and> toUpperCase d = W'"
      using toUpperChar_cases [of c] w by auto
    then show ?thesis
      using Cons.IH [OF W'] canonicalize_eq_upper [OF w(1), of c] Cons
      by (auto simp: toUpperCase_Cons)
  qed
qed

lemma canonicalize_words:
  "map canonicalize ''TOP'' = ''TOP''" "map canonicalize ''PRACTICAL'' = ''PRACTICAL''"
  "map canonicalize ''DOMAIN'' = ''DOMAIN''" "map canonicalize ''.'' = ''.''"
  by code_simp+

lemma matches_here_word:
  assumes "map canonicalize W = W" "CHR 0xDF \<notin> set W" "CHR ''S'' \<notin> set W" "length W = n"
  shows "matches_here W s \<longleftrightarrow> n \<le> length s \<and> toUpperCase (take n s) = W"
  using map_canonicalize_eq_upper [OF assms(2,3), of "take n s"] assms(1,4)
  by (auto simp: matches_here_def)

lemma upper_length: "CHR ''S'' \<notin> set W \<Longrightarrow> toUpperCase d = W \<Longrightarrow> length d = length W"
proof (induction d arbitrary: W)
  case Nil
  then show ?case by (simp add: toUpperCase_Nil)
next
  case (Cons c d)
  from toUpperChar_cases [of c] show ?case
  proof
    assume "toUpperChar c = ''SS''"
    then show ?thesis using Cons.prems by (auto simp: toUpperCase_Cons)
  next
    assume "\<exists>u. toUpperChar c = [u]"
    then obtain u where "toUpperChar c = [u]" by blast
    then show ?thesis
      using Cons.prems Cons.IH [of "tl W"] by (auto simp: toUpperCase_Cons)
  qed
qed

lemma matches_here_spelling:
  assumes "map canonicalize W = W" "CHR 0xDF \<notin> set W" "CHR ''S'' \<notin> set W"
    and "toUpperCase d = W"
  shows "matches_here W (d @ x)"
  using assms upper_length [OF assms(3,4)]
  by (simp add: matches_here_word [OF assms(1,2,3) refl])

lemma matches_here_TOP:
  "matches_here ''TOP'' s \<longleftrightarrow> 3 \<le> length s \<and> toUpperCase (take 3 s) = ''TOP''"
  by (rule matches_here_word [OF canonicalize_words(1)]) simp_all

lemma matches_here_PRACTICAL:
  "matches_here ''PRACTICAL'' s \<longleftrightarrow>
     9 \<le> length s \<and> toUpperCase (take 9 s) = ''PRACTICAL''"
  by (rule matches_here_word [OF canonicalize_words(2)]) simp_all

lemma matches_here_DOMAIN:
  "matches_here ''DOMAIN'' s \<longleftrightarrow> 6 \<le> length s \<and> toUpperCase (take 6 s) = ''DOMAIN''"
  by (rule matches_here_word [OF canonicalize_words(3)]) simp_all

lemma matches_here_stop:
  "matches_here ''.'' s \<longleftrightarrow> 1 \<le> length s \<and> toUpperCase (take 1 s) = ''.''"
  by (rule matches_here_word [OF canonicalize_words(4)]) simp_all

lemmas matches_here_words =
  matches_here_TOP matches_here_PRACTICAL matches_here_DOMAIN matches_here_stop

lemma section_delimiter_is_delimiter:
  assumes "section_delimiter s = Some n"
  shows "0 < n \<and> n \<le> length s \<and> is_delimiter (take n s)"
proof -
  let ?ds = "takeWhile isDigit s"
  consider
    (digits) "?ds \<noteq> []" "matches_here ''.'' (drop (length ?ds) s)" "n = length ?ds + 1"
  | (top) "matches_here ''TOP'' s" "n = 3"
  | (practical) "matches_here ''PRACTICAL'' s" "n = 9"
  | (domain) "matches_here ''DOMAIN'' s" "n = 6"
    using assms by (auto simp: section_delimiter_def Let_def split: if_splits)
  then show ?thesis
  proof cases
    case digits
    from digits(2) have "length (drop (length ?ds) s) \<ge> 1"
      and "toUpperCase (take 1 (drop (length ?ds) s)) = ''.''"
      by (simp_all add: matches_here_stop)
    then obtain c r where d: "drop (length ?ds) s = c # r" and "toUpperChar c = ''.''"
      by (cases "drop (length ?ds) s") (auto simp: toUpperCase_Cons toUpperCase_Nil)
    then have c: "c = CHR ''.''"
      by (cases c) (auto simp: toUpperChar_Char split: if_splits)
    have s: "s = ?ds @ CHR ''.'' # r"
      using d c append_take_drop_id [of "length ?ds" s] takeWhile_eq_take [of isDigit s]
      by (metis)
    then have "take n s = ?ds @ ''.''"
      using digits(3) by (metis append.assoc append_Cons append_Nil append_eq_conv_conj length_append_singleton Suc_eq_plus1)
    moreover have "\<forall>c\<in>set ?ds. isDigit c"
      by (auto dest: set_takeWhileD)
    moreover have "n \<le> length s"
      using s digits(3) by (metis Suc_eq_plus1 Suc_leI length_append length_Cons less_add_Suc1 add_Suc_right le_add1 not_less_eq_eq)
    ultimately show ?thesis
      using digits(1,3) by (auto simp: is_delimiter_def)
  next
    case top
    then have "3 \<le> length s \<and> toUpperCase (take 3 s) = ''TOP''"
      by (simp add: matches_here_words)
    then show ?thesis
      unfolding is_delimiter_def top(2) by simp
  next
    case practical
    then have "9 \<le> length s \<and> toUpperCase (take 9 s) = ''PRACTICAL''"
      by (simp add: matches_here_words)
    then show ?thesis
      unfolding is_delimiter_def practical(2) by simp
  next
    case domain
    then have "6 \<le> length s \<and> toUpperCase (take 6 s) = ''DOMAIN''"
      by (simp add: matches_here_words)
    then show ?thesis
      unfolding is_delimiter_def domain(2) by simp
  qed
qed


lemma is_delimiter_matched:
  assumes "is_delimiter d"
  shows "section_delimiter (d @ x) \<noteq> None"
proof -
  consider
    (digits) ds where "ds \<noteq> []" "\<forall>c\<in>set ds. isDigit c" "d = ds @ ''.''"
  | (word) "matches_here ''TOP'' (d @ x) \<or> matches_here ''PRACTICAL'' (d @ x) \<or>
      matches_here ''DOMAIN'' (d @ x)"
    using assms matches_here_spelling [OF canonicalize_words(1), of d x]
      matches_here_spelling [OF canonicalize_words(2), of d x]
      matches_here_spelling [OF canonicalize_words(3), of d x]
    unfolding is_delimiter_def by auto
  then show ?thesis
  proof cases
    case digits
    have "\<not> isDigit (CHR ''.'')"
      by (simp add: isDigit_def)
    then have t: "takeWhile isDigit (d @ x) = ds"
      using digits(2,3) by (simp add: takeWhile_append2)
    have "matches_here ''.'' (drop (length ds) (d @ x))"
      using digits(3) by (simp add: matches_here_code canonicalize_words [simplified])
    then show ?thesis
      using digits(1) t by (simp add: section_delimiter_def)
  next
    case word
    then show ?thesis
      by (auto simp: section_delimiter_def Let_def)
  qed
qed

lemma split_sections_from_weave:
  "\<exists>ds. length (split_sections_from piece s) = length ds + 1 \<and> list_all is_delimiter ds \<and>
     weave (split_sections_from piece s) ds = piece @ s"
proof (induction piece s rule: split_sections_from.induct)
  case (1 piece)
  have "length (split_sections_from piece []) = length ([] :: string list) + 1 \<and>
    list_all is_delimiter [] \<and> weave (split_sections_from piece []) [] = piece @ []"
    by simp
  then show ?case by blast
next
  case (2 piece c cs)
  show ?case
  proof (cases "section_delimiter (c # cs)")
    case None
    then show ?thesis using 2(1) by simp
  next
    case (Some n)
    from section_delimiter_is_delimiter [OF Some]
    have n: "0 < n" "n \<le> length (c # cs)" and d: "is_delimiter (take n (c # cs))"
      by simp_all
    have r: "drop (n - 1) cs = drop n (c # cs)"
      using n(1) by (cases n) simp_all
    from 2(2) [OF Some] obtain ds where
      ds: "length (split_sections_from [] (drop (n - 1) cs)) = length ds + 1"
        "list_all is_delimiter ds"
        "weave (split_sections_from [] (drop (n - 1) cs)) ds = [] @ drop (n - 1) cs"
      by blast
    have "length (split_sections_from piece (c # cs)) = length (take n (c # cs) # ds) + 1 \<and>
      list_all is_delimiter (take n (c # cs) # ds) \<and>
      weave (split_sections_from piece (c # cs)) (take n (c # cs) # ds) = piece @ c # cs"
      using Some ds d r append_take_drop_id [of n "c # cs"]
      by (simp del: append_take_drop_id take_Suc_Cons drop_Suc_Cons)
    then show ?thesis by blast
  qed
qed

lemma unmatched_snoc:
  assumes "unmatched piece (c # cs)" and "section_delimiter (c # cs) = None"
  shows "unmatched (piece @ [c]) cs"
  unfolding unmatched_def
proof (intro allI impI)
  fix i
  assume "i < length (piece @ [c])"
  then consider "i < length piece" | "i = length piece" by fastforce
  then show "section_delimiter (drop i (piece @ [c]) @ cs) = None"
  proof cases
    case 1
    then show ?thesis using assms(1) by (simp add: unmatched_def)
  next
    case 2
    then show ?thesis using assms(2) by simp
  qed
qed

lemma unmatched_split:
  "unmatched piece s \<Longrightarrow> \<forall>f\<in>set (split_sections_from piece s). \<exists>rest. unmatched f rest"
proof (induction piece s rule: split_sections_from.induct)
  case (1 piece)
  then show ?case by auto
next
  case (2 piece c cs)
  show ?case
  proof (cases "section_delimiter (c # cs)")
    case None
    then show ?thesis
      using 2(1) [OF None unmatched_snoc [OF 2(3) None]] by simp
  next
    case (Some n)
    have "unmatched [] (drop (n - 1) cs)"
      by (simp add: unmatched_def)
    from 2(2) [OF Some this] show ?thesis
      using Some 2(3) by auto
  qed
qed

lemma unmatched_no_delimiter:
  assumes "unmatched f rest" and "f = pre @ d @ post"
  shows "\<not> is_delimiter d"
proof
  assume d: "is_delimiter d"
  then have "d \<noteq> []"
    by (auto simp: is_delimiter_def toUpperCase_Nil)
  then have "length pre < length f"
    using assms(2) by simp
  then have "section_delimiter (drop (length pre) f @ rest) = None"
    using assms(1) by (simp add: unmatched_def)
  then have "section_delimiter (d @ (post @ rest)) = None"
    using assms(2) by simp
  then show False
    using is_delimiter_matched [OF d] by blast
qed

lemma split_sections_cut:
  "\<exists>ds. length (split_sections t) = length ds + 1 \<and> list_all is_delimiter ds \<and>
     weave (split_sections t) ds = t"
  using split_sections_from_weave [of "[]" t] by (simp add: split_sections_def)

lemma split_sections_free:
  assumes "f \<in> set (split_sections t)" and "f = pre @ d @ post"
  shows "\<not> is_delimiter d"
proof -
  have "unmatched [] t"
    by (simp add: unmatched_def)
  from unmatched_split [OF this] assms(1) obtain rest where "unmatched f rest"
    by (auto simp: split_sections_def)
  then show ?thesis
    using assms(2) by (rule unmatched_no_delimiter)
qed

lemma parse_first_three:
  assumes "topStrengths (scan_lines (nonblank_lines t)) = []"
    and "practicalExperience (scan_lines (nonblank_lines t)) = []"
    and "domainKnowledge (scan_lines (nonblank_lines t)) = []"
    and "3 \<le> length (nonblank_sections t)"
  shows "parseFeedbackResponse t =
      \<lparr>topStrengths = trim (nonblank_sections t ! 0),
       practicalExperience = trim (nonblank_sections t ! 1),
       domainKnowledge = trim (nonblank_sections t ! 2)\<rparr>"
proof -
  have i: "0 < length (nonblank_sections t)" "1 < length (nonblank_sections t)"
    "2 < length (nonblank_sections t)"
    using assms(4) by linarith+
  note n = nonblank_sections_nth [OF i(1)] nonblank_sections_nth [OF i(2)]
    nonblank_sections_nth [OF i(3)]
  show ?thesis
    using assms n
    by (simp add: parseFeedbackResponse_def fallback_sections_def Let_def or_else_def)
qed

text \<open>
  Claim C8. The split cuts the whole text at delimiters: the fragments, with a delimiter
  between each two of them, are the text, and no fragment holds a delimiter. When the
  three variables are empty after the loop over the lines and at least three fragments
  are non-empty after trimming, the result holds the first three of these, trimmed, in
  the order \<open>topStrengths\<close>, \<open>practicalExperience\<close>, \<open>domainKnowledge\<close>.
\<close>

theorem fallback_sections_first_three:
  "(\<exists>ds. length (split_sections t) = length ds + 1 \<and> list_all is_delimiter ds \<and>
      weave (split_sections t) ds = t) \<and>
   (\<forall>f\<in>set (split_sections t). \<forall>pre d post. f = pre @ d @ post \<longrightarrow> \<not> is_delimiter d) \<and>
   (topStrengths (scan_lines (nonblank_lines t)) = [] \<and>
    practicalExperience (scan_lines (nonblank_lines t)) = [] \<and>
    domainKnowledge (scan_lines (nonblank_lines t)) = [] \<and>
    3 \<le> length (filter (\<lambda>f. trim f \<noteq> []) (split_sections t)) \<longrightarrow>
    parseFeedbackResponse t =
      \<lparr>topStrengths = trim (filter (\<lambda>f. trim f \<noteq> []) (split_sections t) ! 0),
       practicalExperience = trim (filter (\<lambda>f. trim f \<noteq> []) (split_sections t) ! 1),
       domainKnowledge = trim (filter (\<lambda>f. trim f \<noteq> []) (split_sections t) ! 2)\<rparr>)"
  using split_sections_cut [of t] split_sections_free [of _ t] parse_first_three [of t]
  unfolding nonblank_sections_def by blast

theorem fallback_sections_first_three_witness:
  "split_sections numbered_text =
     [[], '' Strong Go.\<newline>'', '' Builds services.\<newline>'', '' Knows SQL.''] \<and>
   \<not> is_delimiter ''Go'' \<and>
   parseFeedbackResponse numbered_text =
     \<lparr>topStrengths = ''Strong Go.'', practicalExperience = ''Builds services.'',
      domainKnowledge = ''Knows SQL.''\<rparr>"
proof -
  note inst = fallback_sections_first_three [of numbered_text]
  have p: "split_sections numbered_text =
      [[], '' Strong Go.\<newline>'', '' Builds services.\<newline>'', '' Knows SQL.'']"
    unfolding numbered_text_def by code_simp
  have "'' Strong Go.\<newline>'' \<in> set (split_sections numbered_text)"
    unfolding p by simp
  moreover have "'' Strong Go.\<newline>'' = '' Strong '' @ ''Go'' @ ''.\<newline>''"
    by simp
  ultimately have g: "\<not> is_delimiter ''Go''"
    using inst [THEN conjunct2, THEN conjunct1] by blast
  have s: "topStrengths (scan_lines (nonblank_lines numbered_text)) = [] \<and>
      practicalExperience (scan_lines (nonblank_lines numbered_text)) = [] \<and>
      domainKnowledge (scan_lines (nonblank_lines numbered_text)) = []"
    unfolding numbered_text_def by code_simp
  have n: "filter (\<lambda>f. trim f \<noteq> []) (split_sections numbered_text) =
      ['' Strong Go.\<newline>'', '' Builds services.\<newline>'', '' Knows SQL.'']"
    unfolding p by code_simp
  have t: "trim '' Strong Go.\<newline>'' = ''Strong Go.''"
    "trim '' Builds services.\<newline>'' = ''Builds services.''"
    "trim '' Knows SQL.'' = ''Knows SQL.''"
    by code_simp+
  have l: "3 \<le> length (filter (\<lambda>f. trim f \<noteq> []) (split_sections numbered_text))"
    unfolding n by simp
  from inst [THEN conjunct2, THEN conjunct2, rule_format, OF conjI [OF s [THEN conjunct1]
    conjI [OF s [THEN conjunct2, THEN conjunct1] conjI [OF s [THEN conjunct2, THEN conjunct2] l]]]]
  have "parseFeedbackResponse numbered_text =
     \<lparr>topStrengths = ''Strong Go.'', practicalExperience = ''Builds services.'',
      domainKnowledge = ''Knows SQL.''\<rparr>"
    unfolding n using t by simp
  then show ?thesis
    using p g by (intro conjI)
qed

lemma fallback_sections_default:
  assumes "\<not> (topStrengths st = [] \<and> practicalExperience st = [] \<and> domainKnowledge st = [] \<and>
      3 \<le> length (nonblank_sections t))"
    and "field c st = []"
  shows "or_else (field c (fallback_sections t st)) (default_of c) = default_of c"
  using assms by (cases c) (auto simp: fallback_sections_def or_else_def Let_def)

text \<open>
  Claim C6, as the code has it. Let a line be assigned to a category and be empty after
  the label is stripped, and let no later line be assigned to that category. Then the
  result has the canned sentence in the field of that category, unless all three
  variables are empty after the loop and the split of the text leaves at least three
  fragments that are non-empty after trimming. When the loop leaves another variable
  non-empty, every other field is what it is for the text without that line.
\<close>

theorem empty_label_line_default:
  assumes nl: "\<forall>m\<in>set (pre @ [l] @ post). CHR 0x0A \<notin> set m"
    and cl: "classify l = Some c"
    and em: "strip_label c l = []"
    and la: "\<forall>m\<in>set post. classify m \<noteq> Some c"
  shows
    "(\<not> (topStrengths (scan_lines (nonblank_lines (join_newline (pre @ [l] @ post)))) = [] \<and>
         practicalExperience (scan_lines (nonblank_lines (join_newline (pre @ [l] @ post)))) = [] \<and>
         domainKnowledge (scan_lines (nonblank_lines (join_newline (pre @ [l] @ post)))) = [] \<and>
         3 \<le> length (nonblank_sections (join_newline (pre @ [l] @ post)))) \<longrightarrow>
      field c (parseFeedbackResponse (join_newline (pre @ [l] @ post))) = default_of c) \<and>
     (c' \<noteq> c \<and>
      field c' (scan_lines (nonblank_lines (join_newline (pre @ [l] @ post)))) \<noteq> [] \<longrightarrow>
      (\<forall>d. d \<noteq> c \<longrightarrow>
         field d (parseFeedbackResponse (join_newline (pre @ [l] @ post))) =
         field d (parseFeedbackResponse (join_newline (pre @ post)))))"
proof -
  let ?t = "join_newline (pre @ [l] @ post)"
  let ?u = "join_newline (pre @ post)"
  have nt: "nonblank_lines ?t = filter (\<lambda>m. trim m \<noteq> []) (pre @ [l] @ post)"
    using nl by (rule nonblank_lines_join)
  have nu: "nonblank_lines ?u = filter (\<lambda>m. trim m \<noteq> []) (pre @ post)"
    using nl by (intro nonblank_lines_join) auto
  have "filter (\<lambda>m. classify m = Some d) (pre @ [l] @ post) =
      filter (\<lambda>m. classify m = Some d) (pre @ post)" if "d \<noteq> c" for d
    using that cl by simp
  then have other:
    "field d (scan_lines (nonblank_lines ?t)) = field d (scan_lines (nonblank_lines ?u))"
    if "d \<noteq> c" for d
    unfolding nt nu field_scan_lines filter_classified_nonblank using that by simp
  have "filter (\<lambda>m. classify m = Some c) post = []"
    using la by (simp add: filter_empty_conv)
  then have "filter (\<lambda>m. classify m = Some c) (pre @ [l] @ post) \<noteq> [] \<and>
      last (filter (\<lambda>m. classify m = Some c) (pre @ [l] @ post)) = l"
    using cl by simp
  then have this_field: "field c (scan_lines (nonblank_lines ?t)) = []"
    unfolding nt field_scan_lines filter_classified_nonblank using em by simp
  have first: "field c (parseFeedbackResponse ?t) = default_of c"
    if "\<not> (topStrengths (scan_lines (nonblank_lines ?t)) = [] \<and>
         practicalExperience (scan_lines (nonblank_lines ?t)) = [] \<and>
         domainKnowledge (scan_lines (nonblank_lines ?t)) = [] \<and>
         3 \<le> length (nonblank_sections ?t))"
    unfolding parse_field using that this_field by (rule fallback_sections_default)
  have second: "field d (parseFeedbackResponse ?t) = field d (parseFeedbackResponse ?u)"
    if ne: "c' \<noteq> c" and ca: "field c' (scan_lines (nonblank_lines ?t)) \<noteq> []" and "d \<noteq> c" for d
  proof -
    have ca': "field c' (scan_lines (nonblank_lines ?u)) \<noteq> []"
      using ca other [OF ne] by simp
    show ?thesis
      using parse_field_captured [OF ca, of d] parse_field_captured [OF ca', of d]
        other [OF that(3)]
      by simp
  qed
  from first second show ?thesis
    by blast
qed

theorem empty_label_line_default_witness:
  "field Strengths (parseFeedbackResponse (join_newline ([] @ [''TOP_STRENGTHS:''] @ []))) =
     default_topStrengths \<and>
   field Strengths
     (parseFeedbackResponse
        (join_newline
           ([''TOP_STRENGTHS: old'', ''PRACTICAL EXPERIENCE: B''] @ [''TOP_STRENGTHS:''] @
            [''DOMAIN_KNOWLEDGE: C'']))) =
     default_topStrengths \<and>
   field Experience
     (parseFeedbackResponse
        (join_newline
           ([''TOP_STRENGTHS: old'', ''PRACTICAL EXPERIENCE: B''] @ [''TOP_STRENGTHS:''] @
            [''DOMAIN_KNOWLEDGE: C'']))) =
   field Experience
     (parseFeedbackResponse
        (join_newline
           ([''TOP_STRENGTHS: old'', ''PRACTICAL EXPERIENCE: B''] @ [''DOMAIN_KNOWLEDGE: C'']))) \<and>
   field Knowledge
     (parseFeedbackResponse
        (join_newline
           ([''TOP_STRENGTHS: old'', ''PRACTICAL EXPERIENCE: B''] @ [''TOP_STRENGTHS:''] @
            [''DOMAIN_KNOWLEDGE: C'']))) =
   field Knowledge
     (parseFeedbackResponse
        (join_newline
           ([''TOP_STRENGTHS: old'', ''PRACTICAL EXPERIENCE: B''] @ [''DOMAIN_KNOWLEDGE: C''])))"
proof -
  let ?pre = "[''TOP_STRENGTHS: old'', ''PRACTICAL EXPERIENCE: B'']"
  let ?post = "[''DOMAIN_KNOWLEDGE: C'']"
  have cl: "classify ''TOP_STRENGTHS:'' = Some Strengths"
    by code_simp
  have em: "strip_label Strengths ''TOP_STRENGTHS:'' = []"
    by code_simp
  have first: "default_of Strengths = default_topStrengths"
    by simp
  have nl0: "\<forall>m\<in>set ([] @ [''TOP_STRENGTHS:''] @ []). CHR 0x0A \<notin> set m"
    by simp
  have la0: "\<forall>m\<in>set []. classify m \<noteq> Some Strengths"
    by simp
  have "nonblank_sections (join_newline ([] @ [''TOP_STRENGTHS:''] @ [])) = [''_STRENGTHS:'']"
    by code_simp
  then have few: "\<not> (topStrengths (scan_lines (nonblank_lines
          (join_newline ([] @ [''TOP_STRENGTHS:''] @ [])))) = [] \<and>
      practicalExperience (scan_lines (nonblank_lines
          (join_newline ([] @ [''TOP_STRENGTHS:''] @ [])))) = [] \<and>
      domainKnowledge (scan_lines (nonblank_lines
          (join_newline ([] @ [''TOP_STRENGTHS:''] @ [])))) = [] \<and>
      3 \<le> length (nonblank_sections (join_newline ([] @ [''TOP_STRENGTHS:''] @ []))))"
    by simp
  note alone =
    empty_label_line_default [OF nl0 cl em la0, THEN conjunct1, rule_format, OF few,
      unfolded first]
  have nl: "\<forall>m\<in>set (?pre @ [''TOP_STRENGTHS:''] @ ?post). CHR 0x0A \<notin> set m"
    by simp
  have k: "classify ''DOMAIN_KNOWLEDGE: C'' = Some Knowledge"
    by code_simp
  have la: "\<forall>m\<in>set ?post. classify m \<noteq> Some Strengths"
    using k by simp
  have ne: "Experience \<noteq> Strengths"
    by simp
  have k': "Knowledge \<noteq> Strengths"
    by simp
  have b: "scan_lines (nonblank_lines (join_newline (?pre @ [''TOP_STRENGTHS:''] @ ?post))) =
      \<lparr>topStrengths = [], practicalExperience = ''B'', domainKnowledge = ''C''\<rparr>"
    by code_simp
  have ca: "field Experience
      (scan_lines (nonblank_lines (join_newline (?pre @ [''TOP_STRENGTHS:''] @ ?post)))) \<noteq> []"
    unfolding b by simp
  have some: "\<not> (topStrengths (scan_lines (nonblank_lines
          (join_newline (?pre @ [''TOP_STRENGTHS:''] @ ?post)))) = [] \<and>
      practicalExperience (scan_lines (nonblank_lines
          (join_newline (?pre @ [''TOP_STRENGTHS:''] @ ?post)))) = [] \<and>
      domainKnowledge (scan_lines (nonblank_lines
          (join_newline (?pre @ [''TOP_STRENGTHS:''] @ ?post)))) = [] \<and>
      3 \<le> length (nonblank_sections (join_newline (?pre @ [''TOP_STRENGTHS:''] @ ?post))))"
    unfolding b by simp
  note r = empty_label_line_default [OF nl cl em la, of Experience]
  note this_field = r [THEN conjunct1, rule_format, OF some, unfolded first]
  note others = r [THEN conjunct2, rule_format, OF conjI [OF ne ca]]
  show ?thesis
    using alone this_field others [OF ne] others [OF k'] by (intro conjI)
qed

text \<open>
  The claim C6 as the specification states it fails. In the text of the three labels
  alone, each on a line of its own, every label line is empty after the colon; all three
  variables stay empty, the text is split at TOP, PRACTICAL and DOMAIN, and the fields are
  the rests of the labels, not the canned sentences.
\<close>

theorem empty_label_lines_counterexample:
  "nonblank_lines empty_labels_text =
     [''TOP_STRENGTHS:'', ''PRACTICAL_EXPERIENCE:'', ''DOMAIN_KNOWLEDGE:''] \<and>
   strip_top ''TOP_STRENGTHS:'' = [] \<and>
   parseFeedbackResponse empty_labels_text =
     \<lparr>topStrengths = ''_STRENGTHS:'', practicalExperience = ''_EXPERIENCE:'',
      domainKnowledge = ''_KNOWLEDGE:''\<rparr> \<and>
   ''_STRENGTHS:'' \<noteq> default_topStrengths"
proof -
  have "nonblank_lines empty_labels_text =
     [''TOP_STRENGTHS:'', ''PRACTICAL_EXPERIENCE:'', ''DOMAIN_KNOWLEDGE:'']"
    unfolding empty_labels_text_def by code_simp
  moreover have "strip_top ''TOP_STRENGTHS:'' = []"
    by code_simp
  moreover have "parseFeedbackResponse empty_labels_text =
     \<lparr>topStrengths = ''_STRENGTHS:'', practicalExperience = ''_EXPERIENCE:'',
      domainKnowledge = ''_KNOWLEDGE:''\<rparr>"
    unfolding empty_labels_text_def by code_simp
  moreover have "''_STRENGTHS:'' \<noteq> default_topStrengths"
    by (simp add: default_topStrengths_def)
  ultimately show ?thesis
    by blast
qed

end
